theory Spec2Isabelle
  imports Complex_Main "HOL-Library.AList" "HOL-Library.Multiset"
begin

section \<open>The holder-snapshot engine of tools/takeSnapshot.js\<close>

text \<open>
  The development embeds the balance ledgers, the snapshot merge, the sort, the report of
  the top holders and the control flow of \<^verbatim>\<open>main\<close> of \<^verbatim>\<open>tools/takeSnapshot.js\<close>.

  A JavaScript object used as a dictionary is an association list in property order.
  For keys that are not canonical array indices (every address is a \<^verbatim>\<open>0x\<close>-prefixed
  string) property order is insertion order: assigning to an existing key keeps its
  position, assigning to a new key appends it, \<^verbatim>\<open>delete\<close> removes it. These are
  \<^const>\<open>AList.update\<close>, \<^const>\<open>AList.delete\<close> and \<^const>\<open>map_of\<close>.
  \<^verbatim>\<open>BigInt\<close> values are \<^typ>\<open>int\<close>; decoded \<^verbatim>\<open>uint256\<close> event arguments are \<^typ>\<open>nat\<close>.
\<close>

type_synonym address = string

definition ZeroAddress :: address where
  "ZeroAddress = ''0x0000000000000000000000000000000000000000''"

text \<open>
  The exceptions of a run: the two \<^verbatim>\<open>Error\<close>s the program throws itself (an unknown
  token type in \<^verbatim>\<open>main\<close>, a bad formatted number in \<^verbatim>\<open>commify\<close>) and the errors of the
  language and of the library.
\<close>

datatype error = TypeError | SyntaxError | RangeError | UnknownTokenType | BadFormattedNumber

subsection \<open>Event arguments\<close>

text \<open>
  The ledgers destructure the arguments of an event by name, as in
  \<^verbatim>\<open>const { from, to, ids, values } = event.args\<close>. \<^verbatim>\<open>event.args\<close> is a \<^verbatim>\<open>Result\<close> of
  the ethers library (version 6, the one with \<^verbatim>\<open>ethers.ZeroAddress\<close> and
  \<^verbatim>\<open>ethers.JsonRpcProvider\<close>): an \<^verbatim>\<open>Array\<close> of the decoded arguments behind a proxy.
  The proxy answers the read of a property that is a method of the array with that method,
  wrapped in a function, and only the read of another name with the decoded argument of
  that name. \<open>array_methods\<close> lists the methods of an \<^verbatim>\<open>Array\<close>, of an object and of
  the class \<^verbatim>\<open>Result\<close>; the members that are not methods (\<^verbatim>\<open>length\<close>) are not read by
  the program and are left out.
\<close>

datatype 'a property = Argument 'a | Method

definition array_methods :: "string list" where
  "array_methods =
     [''at'', ''concat'', ''copyWithin'', ''entries'', ''every'', ''fill'', ''filter'',
      ''find'', ''findIndex'', ''findLast'', ''findLastIndex'', ''flat'', ''flatMap'',
      ''forEach'', ''includes'', ''indexOf'', ''join'', ''keys'', ''lastIndexOf'', ''map'',
      ''pop'', ''push'', ''reduce'', ''reduceRight'', ''reverse'', ''shift'', ''slice'',
      ''some'', ''sort'', ''splice'', ''toLocaleString'', ''toReversed'', ''toSorted'',
      ''toSpliced'', ''toString'', ''unshift'', ''values'', ''with'', ''constructor'',
      ''hasOwnProperty'', ''isPrototypeOf'', ''propertyIsEnumerable'', ''valueOf'',
      ''toArray'', ''toObject'', ''getValue'']"

text \<open>
  The value of the property \<open>name\<close> of the arguments of an event whose decoded argument
  of that name is \<open>argument\<close>.
\<close>

definition result_get :: "string \<Rightarrow> 'a \<Rightarrow> 'a property" where
  "result_get name argument =
     (if name \<in> set array_methods then Method else Argument argument)"

subsection \<open>Fungible ledger: getERC20Holders\<close>

text \<open>\<^verbatim>\<open>event Transfer(address indexed from, address indexed to, uint256 value)\<close>\<close>

record erc20_event =
  from20 :: address
  to20 :: address
  value20 :: nat

text \<open>
  \<^verbatim>\<open>if (!balances[a]) balances[a] = 0n; balances[a] += d;\<close>
  The test is true for a missing key and for \<^verbatim>\<open>0n\<close>.
\<close>

definition add_balance :: "'k \<Rightarrow> int \<Rightarrow> ('k \<times> int) list \<Rightarrow> ('k \<times> int) list" where
  "add_balance a d balances =
     (let b1 = (case map_of balances a of
                  None \<Rightarrow> AList.update a 0 balances
                | Some b \<Rightarrow> if b = 0 then AList.update a 0 balances else balances);
          cur = (case map_of b1 a of None \<Rightarrow> 0 | Some b \<Rightarrow> b)
      in AList.update a (cur + d) b1)"

definition erc20_step :: "erc20_event \<Rightarrow> (address \<times> int) list \<Rightarrow> (address \<times> int) list" where
  "erc20_step ev balances =
     (let valueBigInt = int (value20 ev);
          b1 = (if from20 ev \<noteq> ZeroAddress
                then add_balance (from20 ev) (- valueBigInt) balances else balances)
      in if to20 ev \<noteq> ZeroAddress then add_balance (to20 ev) valueBigInt b1 else b1)"

definition getERC20Holders :: "erc20_event list \<Rightarrow> (address \<times> int) list" where
  "getERC20Holders transferEvents = fold erc20_step transferEvents []"

subsection \<open>Single-owner ledger: getERC721Holders\<close>

text \<open>
  \<^verbatim>\<open>event Transfer(address indexed from, address indexed to, uint256 indexed tokenId)\<close>

  The keys of \<^verbatim>\<open>tokenOwners\<close> are \<^verbatim>\<open>tokenId.toString()\<close>, which is one-to-one on
  token ids, so the model keys the object by the id itself. \<^verbatim>\<open>Object.values\<close> lists
  the keys that are canonical array indices (ids below \<open>2\<^sup>3\<^sup>2 - 1\<close>) first, in ascending
  numeric order, then the other keys in insertion order.
\<close>

record erc721_event =
  from721 :: address
  to721 :: address
  tokenId :: nat

definition erc721_step :: "erc721_event \<Rightarrow> (nat \<times> address) list \<Rightarrow> (nat \<times> address) list" where
  "erc721_step ev tokenOwners =
     (let o1 = (if from721 ev \<noteq> ZeroAddress
                then AList.delete (tokenId ev) tokenOwners else tokenOwners)
      in if to721 ev \<noteq> ZeroAddress then AList.update (tokenId ev) (to721 ev) o1 else o1)"

definition tokenOwners_of :: "erc721_event list \<Rightarrow> (nat \<times> address) list" where
  "tokenOwners_of transferEvents = fold erc721_step transferEvents []"

definition is_array_index :: "nat \<Rightarrow> bool" where
  "is_array_index k = (int k < 4294967295)"

definition object_values :: "(nat \<times> 'v) list \<Rightarrow> 'v list" where
  "object_values obj =
     map snd (sort_key fst (filter (\<lambda>(k, v). is_array_index k) obj)
              @ filter (\<lambda>(k, v). \<not> is_array_index k) obj)"

text \<open>
  \<^verbatim>\<open>if (!holderCounts[owner]) holderCounts[owner] = 0; holderCounts[owner]++;\<close>
  The counts are JavaScript Numbers, here integers.
\<close>

definition count_owner :: "address \<Rightarrow> (address \<times> int) list \<Rightarrow> (address \<times> int) list" where
  "count_owner owner holderCounts = add_balance owner 1 holderCounts"

definition getERC721Holders :: "erc721_event list \<Rightarrow> (address \<times> int) list" where
  "getERC721Holders transferEvents =
     fold count_owner (object_values (tokenOwners_of transferEvents)) []"

subsection \<open>Multi-token ledger: getERC1155Holders\<close>

text \<open>
  \<^verbatim>\<open>event TransferSingle(operator, from, to, uint256 id, uint256 value)\<close> and
  \<^verbatim>\<open>event TransferBatch(operator, from, to, uint256[] ids, uint256[] values)\<close>.
  \<^verbatim>\<open>balances\<close> maps an address to an object from \<^verbatim>\<open>id.toString()\<close> to a BigInt; the
  inner object is keyed by the id itself here. Only the sum over an inner object is
  exported, so its enumeration order is immaterial and the model keeps insertion order.
\<close>

record single_event =
  from_s :: address
  to_s :: address
  id_s :: nat
  value_s :: nat

record batch_event =
  from_b :: address
  to_b :: address
  ids_b :: "nat list"
  values_b :: "nat list"

type_synonym balances1155 = "(address \<times> (nat \<times> int) list) list"

text \<open>
  \<^verbatim>\<open>if (!balances[a]) balances[a] = {};
  if (!balances[a][id]) balances[a][id] = 0n;
  balances[a][id] += d;\<close>
\<close>

definition add_id_balance :: "address \<Rightarrow> nat \<Rightarrow> int \<Rightarrow> balances1155 \<Rightarrow> balances1155" where
  "add_id_balance a i d balances =
     (let b1 = (case map_of balances a of
                  None \<Rightarrow> AList.update a [] balances
                | Some inner \<Rightarrow> balances);
          inner = (case map_of b1 a of None \<Rightarrow> [] | Some inner \<Rightarrow> inner)
      in AList.update a (add_balance i d inner) b1)"

definition transfer1155 :: "address \<Rightarrow> address \<Rightarrow> nat \<Rightarrow> nat \<Rightarrow> balances1155 \<Rightarrow> balances1155" where
  "transfer1155 from to i v balances =
     (let valueBigInt = int v;
          b1 = (if from \<noteq> ZeroAddress
                then add_id_balance from i (- valueBigInt) balances else balances)
      in if to \<noteq> ZeroAddress then add_id_balance to i valueBigInt b1 else b1)"

definition single_step :: "single_event \<Rightarrow> balances1155 \<Rightarrow> balances1155" where
  "single_step ev balances =
     transfer1155 (from_s ev) (to_s ev) (id_s ev) (value_s ev) balances"

text \<open>
  \<^verbatim>\<open>BigInt(values[index].toString())\<close>, for what the property \<^verbatim>\<open>values\<close> of the event
  arguments gave. A function has no property named by an index: \<^verbatim>\<open>values[index]\<close> is
  \<^verbatim>\<open>undefined\<close> and the call of \<^verbatim>\<open>toString\<close> on it throws a TypeError. A decoded array
  gives its element, and the proxy throws a RangeError for an index that it does not have.
\<close>

definition value_at :: "nat list property \<Rightarrow> nat \<Rightarrow> error + nat" where
  "value_at values index =
     (case values of
        Method \<Rightarrow> Inl TypeError
      | Argument vs \<Rightarrow> if index < length vs then Inr (vs ! index) else Inl RangeError)"

text \<open>
  \<^verbatim>\<open>ids.forEach((id, index) => { const valueBigInt = BigInt(values[index].toString());
  ... })\<close>: the ids that are left, \<^verbatim>\<open>values\<close> and the index of the first of these ids.
\<close>

fun batch_loop ::
  "address \<Rightarrow> address \<Rightarrow> nat list \<Rightarrow> nat list property \<Rightarrow> nat \<Rightarrow> balances1155 \<Rightarrow>
     error + balances1155" where
  "batch_loop from to [] values index balances = Inr balances"
| "batch_loop from to (i # is) values index balances =
     (case value_at values index of
        Inl e \<Rightarrow> Inl e
      | Inr v \<Rightarrow> batch_loop from to is values (index + 1) (transfer1155 from to i v balances))"

text \<open>
  \<^verbatim>\<open>const { from, to, ids, values } = event.args; ids.forEach(...)\<close>. The names
  \<^verbatim>\<open>from\<close>, \<^verbatim>\<open>to\<close> and \<^verbatim>\<open>ids\<close> are not names of methods and give the decoded
  arguments, as do the names that the other ledgers destructure; \<^verbatim>\<open>values\<close> is read
  through \<^const>\<open>result_get\<close>.
\<close>

definition batch_step :: "batch_event \<Rightarrow> balances1155 \<Rightarrow> error + balances1155" where
  "batch_step ev balances =
     batch_loop (from_b ev) (to_b ev) (ids_b ev) (result_get ''values'' (values_b ev)) 0 balances"

fun batch_steps :: "batch_event list \<Rightarrow> balances1155 \<Rightarrow> error + balances1155" where
  "batch_steps [] balances = Inr balances"
| "batch_steps (ev # evs) balances =
     (case batch_step ev balances of
        Inl e \<Rightarrow> Inl e
      | Inr b \<Rightarrow> batch_steps evs b)"

text \<open>
  \<^verbatim>\<open>for (address in balances) for (id in balances[address]) { if (!holders[address])
  holders[address] = 0n; holders[address] += balances[address][id]; }\<close>
\<close>

definition sum_ids :: "address \<times> (nat \<times> int) list \<Rightarrow> (address \<times> int) list \<Rightarrow> (address \<times> int) list" where
  "sum_ids entry holders = fold (\<lambda>(i, b). add_balance (fst entry) b) (snd entry) holders"

definition holders_of_balances :: "balances1155 \<Rightarrow> (address \<times> int) list" where
  "holders_of_balances balances = fold sum_ids balances []"

definition balances1155_of :: "single_event list \<Rightarrow> batch_event list \<Rightarrow> error + balances1155" where
  "balances1155_of singleTransferEvents batchTransferEvents =
     batch_steps batchTransferEvents (fold single_step singleTransferEvents [])"

definition getERC1155Holders ::
  "single_event list \<Rightarrow> batch_event list \<Rightarrow> error + (address \<times> int) list" where
  "getERC1155Holders singleTransferEvents batchTransferEvents =
     (case balances1155_of singleTransferEvents batchTransferEvents of
        Inl e \<Rightarrow> Inl e
      | Inr balances \<Rightarrow> Inr (holders_of_balances balances))"

subsection \<open>Formatting and reloading balances\<close>

text \<open>
  \<^verbatim>\<open>bigIntValue.toString()\<close>: the decimal digits, with a leading minus sign for a
  negative value.
\<close>

definition digit_char :: "nat \<Rightarrow> char" where
  "digit_char d = ''0123456789'' ! d"

function nat_toString :: "nat \<Rightarrow> string" where
  "nat_toString n =
     (if n < 10 then [digit_char n] else nat_toString (n div 10) @ [digit_char (n mod 10)])"
  by pat_completeness auto
termination
  by (relation "measure id") auto

declare nat_toString.simps [simp del]

definition bigint_toString :: "int \<Rightarrow> string" where
  "bigint_toString i =
     (if i < 0 then CHR ''-'' # nat_toString (nat (- i)) else nat_toString (nat i))"

definition padStart :: "nat \<Rightarrow> char \<Rightarrow> string \<Rightarrow> string" where
  "padStart targetLength c s = replicate (targetLength - length s) c @ s"

text \<open>
  \<^verbatim>\<open>paddedValue.slice(0, -18)\<close> keeps all but the last 18 characters and
  \<^verbatim>\<open>paddedValue.slice(-18)\<close> keeps the last 18.
\<close>

definition formatBigIntToDecimal :: "int \<Rightarrow> string" where
  "formatBigIntToDecimal bigIntValue =
     (let strValue = bigint_toString bigIntValue;
          paddedValue = padStart 19 CHR ''0'' strValue;
          integerPart = take (length paddedValue - 18) paddedValue;
          decimalPart = drop (length paddedValue - 18) paddedValue
      in integerPart @ ''.'' @ decimalPart)"

definition is_digit :: "char \<Rightarrow> bool" where
  "is_digit c = (c \<in> set ''0123456789'')"

definition digit_val :: "char \<Rightarrow> nat" where
  "digit_val c = of_char c - 48"

definition digits_value :: "string \<Rightarrow> nat" where
  "digits_value ds = foldl (\<lambda>a c. 10 * a + digit_val c) 0 ds"

text \<open>\<^verbatim>\<open>.replace('.', '')\<close> removes the first dot only.\<close>

fun replace_dot :: "string \<Rightarrow> string" where
  "replace_dot [] = []"
| "replace_dot (c # cs) = (if c = CHR ''.'' then cs else c # replace_dot cs)"

text \<open>
  \<^verbatim>\<open>BigInt(string)\<close>: the empty string is \<^verbatim>\<open>0n\<close>, a string of decimal digits with an
  optional sign is its value, anything else throws a SyntaxError. The strings reaching this
  call are persisted balances, over the alphabet of digits, \<^verbatim>\<open>-\<close> and \<^verbatim>\<open>.\<close>; surrounding
  white space and the prefixed literals \<^verbatim>\<open>0x\<close>, \<^verbatim>\<open>0o\<close>, \<^verbatim>\<open>0b\<close> are not modelled.
\<close>

definition BigInt_of_string :: "string \<Rightarrow> error + int" where
  "BigInt_of_string s =
     (if s = [] then Inr 0
      else if list_all is_digit s then Inr (int (digits_value s))
      else case s of
             [] \<Rightarrow> Inr 0
           | c # ds \<Rightarrow>
               if ds \<noteq> [] \<and> list_all is_digit ds \<and> c = CHR ''-''
               then Inr (- int (digits_value ds))
               else if ds \<noteq> [] \<and> list_all is_digit ds \<and> c = CHR ''+''
               then Inr (int (digits_value ds))
               else Inl SyntaxError)"

text \<open>
  A persisted balance is a decimal string (fungible) or a JSON number (the other two
  kinds). The program only writes integer-valued numbers; \<^verbatim>\<open>String(n)\<close> of such a number
  is its digit string below \<open>10\<^sup>2\<^sup>1\<close> and is in exponent notation from there on, which
  \<^verbatim>\<open>BigInt\<close> rejects.
\<close>

datatype balance_value = Str string | Num int

definition load_balance :: "balance_value \<Rightarrow> error + int" where
  "load_balance balance =
     (case balance of
        Str s \<Rightarrow> BigInt_of_string (replace_dot s)
      | Num n \<Rightarrow>
          if \<bar>n\<bar> < 10 ^ 21 then BigInt_of_string (replace_dot (bigint_toString n))
          else Inl SyntaxError)"

text \<open>
  \<^verbatim>\<open>data.holders.reduce((acc, [address, balance]) => { acc[address] =
  BigInt(String(balance).replace('.', '')); return acc; }, {})\<close>
\<close>

fun load_holders ::
  "(address \<times> balance_value) list \<Rightarrow> (address \<times> int) list \<Rightarrow> error + (address \<times> int) list" where
  "load_holders [] acc = Inr acc"
| "load_holders ((address, balance) # rest) acc =
     (case load_balance balance of
        Inl e \<Rightarrow> Inl e
      | Inr b \<Rightarrow> load_holders rest (AList.update address b acc))"

subsection \<open>Merging the fresh computation into the prior holders\<close>

text \<open>
  The fungible and the multi-token ledger return BigInts, the single-owner ledger returns
  Numbers. \<^verbatim>\<open>balance !== 0n\<close> compares strictly, so it holds for every Number, zero
  included.

  Conversions to and from IEEE doubles are not computed here: \<open>nearest\<close> stands for
  rounding a rational to the nearest double, and every result below holds for every
  function in its place. \<^verbatim>\<open>Number(balance)\<close> of a BigInt is the nearest double, which is
  itself an integer; of a Number it is the same Number.
\<close>

datatype ctype = ERC20 | ERC721 | ERC1155

datatype ledger_value = BigIntVal int | NumberVal int

definition ledger_int :: "ledger_value \<Rightarrow> int" where
  "ledger_int v = (case v of BigIntVal n \<Rightarrow> n | NumberVal n \<Rightarrow> n)"

definition not_0n :: "ledger_value \<Rightarrow> bool" where
  "not_0n v = (case v of BigIntVal n \<Rightarrow> n \<noteq> 0 | NumberVal n \<Rightarrow> True)"

definition Number_of :: "(rat \<Rightarrow> rat) \<Rightarrow> ledger_value \<Rightarrow> int" where
  "Number_of nearest v =
     (case v of BigIntVal n \<Rightarrow> \<lfloor>nearest (of_int n)\<rfloor> | NumberVal n \<Rightarrow> n)"

text \<open>
  \<^verbatim>\<open>if (contractType === 'ERC20') existingHolders[holder] = formatBigIntToDecimal(balance);
  else existingHolders[holder] = Number(balance);\<close>
\<close>

definition stored_balance :: "(rat \<Rightarrow> rat) \<Rightarrow> ctype \<Rightarrow> ledger_value \<Rightarrow> balance_value" where
  "stored_balance nearest contractType balance =
     (if contractType = ERC20 then Str (formatBigIntToDecimal (ledger_int balance))
      else Num (Number_of nearest balance))"

text \<open>
  The loop over \<^verbatim>\<open>Object.entries(existingHolders)\<close> that re-formats the loaded BigInts;
  each assignment is to an existing key, so the order is kept.
\<close>

fun reformat_existing ::
  "(rat \<Rightarrow> rat) \<Rightarrow> ctype \<Rightarrow> (address \<times> int) list \<Rightarrow> (address \<times> balance_value) list" where
  "reformat_existing nearest contractType [] = []"
| "reformat_existing nearest contractType ((holder, balance) # rest) =
     (holder, stored_balance nearest contractType (BigIntVal balance))
       # reformat_existing nearest contractType rest"

text \<open>The loop over \<^verbatim>\<open>Object.entries(holders)\<close>.\<close>

definition merge_step ::
  "(rat \<Rightarrow> rat) \<Rightarrow> ctype \<Rightarrow> (address \<Rightarrow> bool) \<Rightarrow> address \<times> ledger_value \<Rightarrow>
     (address \<times> balance_value) list \<Rightarrow> (address \<times> balance_value) list" where
  "merge_step nearest contractType isContract entry existingHolders =
     (if not_0n (snd entry) \<and> \<not> isContract (fst entry)
      then AList.update (fst entry) (stored_balance nearest contractType (snd entry)) existingHolders
      else AList.delete (fst entry) existingHolders)"

definition merge_holders ::
  "(rat \<Rightarrow> rat) \<Rightarrow> ctype \<Rightarrow> (address \<Rightarrow> bool) \<Rightarrow> (address \<times> ledger_value) list \<Rightarrow>
     (address \<times> balance_value) list \<Rightarrow> (address \<times> balance_value) list" where
  "merge_holders nearest contractType isContract holders existingHolders =
     fold (merge_step nearest contractType isContract) holders existingHolders"

subsection \<open>Sorting the holders\<close>

text \<open>
  \<^verbatim>\<open>parseFloat\<close> of a string reads its longest prefix that is a decimal literal (an
  optional sign, digits, an optional dot and digits) and is \<^verbatim>\<open>NaN\<close> when there is none;
  the value read is then rounded to the nearest double. Leading white space, exponents and
  \<^verbatim>\<open>Infinity\<close> do not occur in persisted balances and are not modelled. \<^verbatim>\<open>parseFloat\<close>
  of a Number is that Number.
\<close>

datatype jsnum = NaN | Fin rat

definition decimal_prefix :: "string \<Rightarrow> rat option" where
  "decimal_prefix s =
     (let neg = (case s of [] \<Rightarrow> False | c # cs \<Rightarrow> c = CHR ''-'');
          r = (case s of [] \<Rightarrow> [] | c # cs \<Rightarrow> if c = CHR ''-'' \<or> c = CHR ''+'' then cs else s);
          ip = takeWhile is_digit r;
          r2 = dropWhile is_digit r;
          fp = (case r2 of [] \<Rightarrow> [] | c # cs \<Rightarrow> if c = CHR ''.'' then takeWhile is_digit cs else [])
      in if ip = [] \<and> fp = [] then None
         else Some ((if neg then - 1 else 1) *
                    (of_nat (digits_value ip) + of_nat (digits_value fp) / 10 ^ length fp)))"

definition parseFloat :: "(rat \<Rightarrow> rat) \<Rightarrow> balance_value \<Rightarrow> jsnum" where
  "parseFloat nearest v =
     (case v of
        Num n \<Rightarrow> Fin (of_int n)
      | Str s \<Rightarrow> (case decimal_prefix s of None \<Rightarrow> NaN | Some q \<Rightarrow> Fin (nearest q)))"

text \<open>
  The comparator \<^verbatim>\<open>([, a], [, b]) => parseFloat(b) - parseFloat(a)\<close>. A difference with
  a \<^verbatim>\<open>NaN\<close> operand is \<^verbatim>\<open>NaN\<close>, which \<^verbatim>\<open>sort\<close> reads as \<open>0\<close>.
\<close>

definition compare_holders ::
  "(rat \<Rightarrow> rat) \<Rightarrow> address \<times> balance_value \<Rightarrow> address \<times> balance_value \<Rightarrow> rat" where
  "compare_holders nearest x y =
     (case parseFloat nearest (snd y) of
        NaN \<Rightarrow> 0
      | Fin b \<Rightarrow> (case parseFloat nearest (snd x) of NaN \<Rightarrow> 0 | Fin a \<Rightarrow> b - a))"

text \<open>
  \<^verbatim>\<open>Array.prototype.sort\<close> is a stable sort: with a consistent comparator the result is
  the one of stable insertion, where an element goes in front of the first element that
  it does not have to follow.
\<close>

fun insert_sorted :: "('a \<Rightarrow> 'a \<Rightarrow> rat) \<Rightarrow> 'a \<Rightarrow> 'a list \<Rightarrow> 'a list" where
  "insert_sorted cmp x [] = [x]"
| "insert_sorted cmp x (y # ys) =
     (if cmp x y \<le> 0 then x # y # ys else y # insert_sorted cmp x ys)"

definition js_sort :: "('a \<Rightarrow> 'a \<Rightarrow> rat) \<Rightarrow> 'a list \<Rightarrow> 'a list" where
  "js_sort cmp xs = foldr (insert_sorted cmp) xs []"

definition sort_holders ::
  "(rat \<Rightarrow> rat) \<Rightarrow> (address \<times> balance_value) list \<Rightarrow> (address \<times> balance_value) list" where
  "sort_holders nearest existingHolders = js_sort (compare_holders nearest) existingHolders"

text \<open>From the re-formatting of the loaded holders to \<^verbatim>\<open>sortedHolders\<close>.\<close>

definition snapshot_holders ::
  "(rat \<Rightarrow> rat) \<Rightarrow> ctype \<Rightarrow> (address \<Rightarrow> bool) \<Rightarrow> (address \<times> ledger_value) list \<Rightarrow>
     (address \<times> int) list \<Rightarrow> (address \<times> balance_value) list" where
  "snapshot_holders nearest contractType isContract holders existingHolders =
     sort_holders nearest
       (merge_holders nearest contractType isContract holders
          (reformat_existing nearest contractType existingHolders))"

subsection \<open>The chain, the deployment block and the event fetch\<close>

text \<open>
  What the run reads from the RPC provider. A transaction carries its destination
  (\<^verbatim>\<open>tx.to\<close>, \<^verbatim>\<open>null\<close> for a contract creation) and the \<^verbatim>\<open>contractAddress\<close> of its
  receipt. \<open>blocks\<close> is \<^verbatim>\<open>provider.getBlock\<close>, \<open>None\<close> where the call fails;
  \<open>blockNumber\<close> is \<^verbatim>\<open>provider.getBlockNumber()\<close>; the three probes are those of
  \<^verbatim>\<open>detectContractType\<close>; the four log functions give the decoded events of one block;
  \<open>hasCode\<close> is \<^verbatim>\<open>provider.getCode(address) !== '0x'\<close>. Event and code queries are
  taken to succeed.
\<close>

record tx =
  tx_to :: "address option"
  receipt_contractAddress :: "address option"

record chain =
  tokenInfo :: "(string \<times> string) option"
  blockNumber :: int
  blocks :: "int \<Rightarrow> tx list option"
  supportsERC721 :: bool
  supportsERC1155 :: bool
  allowanceCallOk :: bool
  transfer_logs :: "int \<Rightarrow> erc20_event list"
  transfer721_logs :: "int \<Rightarrow> erc721_event list"
  transferSingle_logs :: "int \<Rightarrow> single_event list"
  transferBatch_logs :: "int \<Rightarrow> batch_event list"
  hasCode :: "address \<Rightarrow> bool"

record args =
  contractAddress :: address
  startingBlock :: int
  refreshData :: bool

record snapshot =
  holders :: "(address \<times> balance_value) list"
  lastCheckedBlock :: int
  deploymentBlock :: "int option"
  symbol :: string

definition checkBlockForDeployment :: "chain \<Rightarrow> address \<Rightarrow> int \<Rightarrow> bool" where
  "checkBlockForDeployment c ca bn =
     (case blocks c bn of
        None \<Rightarrow> False
      | Some txs \<Rightarrow>
          list_ex (\<lambda>t. tx_to t = None \<and> receipt_contractAddress t = Some ca) txs)"

text \<open>
  \<^verbatim>\<open>for (let blockNumber = startingBlock; blockNumber <= latestBlockNumber; blockNumber++)\<close>
\<close>

function scan_blocks :: "chain \<Rightarrow> address \<Rightarrow> int \<Rightarrow> int \<Rightarrow> int option" where
  "scan_blocks c ca bn latestBlockNumber =
     (if bn \<le> latestBlockNumber
      then (if checkBlockForDeployment c ca bn then Some bn
            else scan_blocks c ca (bn + 1) latestBlockNumber)
      else None)"
  by pat_completeness auto
termination
  by (relation "measure (\<lambda>(c, ca, bn, l). nat (l + 1 - bn))") auto

declare scan_blocks.simps [simp del]

definition getDeploymentBlock :: "args \<Rightarrow> chain \<Rightarrow> int option" where
  "getDeploymentBlock a c = scan_blocks c (contractAddress a) (startingBlock a) (blockNumber c)"

definition verifyDeploymentBlock :: "args \<Rightarrow> chain \<Rightarrow> int \<Rightarrow> bool" where
  "verifyDeploymentBlock a c db = checkBlockForDeployment c (contractAddress a) db"

text \<open>
  \<^verbatim>\<open>fromBlock\<close> is \<^verbatim>\<open>null\<close> when it was set from a scan that found nothing. In
  \<^verbatim>\<open>i <= toBlock\<close> and \<^verbatim>\<open>i + batchSize\<close> the \<^verbatim>\<open>null\<close> counts as \<open>0\<close>, and
  \<^verbatim>\<open>queryFilter\<close> reads a \<^verbatim>\<open>null\<close> start as block \<open>0\<close>.
\<close>

definition toNumber :: "int option \<Rightarrow> int" where
  "toNumber i = (case i of None \<Rightarrow> 0 | Some n \<Rightarrow> n)"

text \<open>
  \<^verbatim>\<open>for (let i = fromBlock; i <= toBlock; i += batchSize) { const endBlock =
  Math.min(i + batchSize - 1, toBlock); ... queryFilter(eventName, i, endBlock) ... }\<close>
  with \<^verbatim>\<open>batchSize = 1000\<close>: the windows queried, in order.
\<close>

function block_windows :: "int option \<Rightarrow> int \<Rightarrow> (int option \<times> int) list" where
  "block_windows i toBlock =
     (if toNumber i \<le> toBlock
      then (i, min (toNumber i + 1000 - 1) toBlock)
             # block_windows (Some (toNumber i + 1000)) toBlock
      else [])"
  by pat_completeness auto
termination
  by (relation "measure (\<lambda>(i, t). nat (t + 1 - toNumber i))") (auto simp: toNumber_def)

declare block_windows.simps [simp del]

definition queryFilter :: "(int \<Rightarrow> 'e list) \<Rightarrow> int option \<times> int \<Rightarrow> 'e list" where
  "queryFilter logs w = concat (map logs [toNumber (fst w) .. snd w])"

definition getPastEvents :: "(int \<Rightarrow> 'e list) \<Rightarrow> int option \<Rightarrow> int \<Rightarrow> 'e list" where
  "getPastEvents logs fromBlock toBlock =
     concat (map (queryFilter logs) (block_windows fromBlock toBlock))"

text \<open>The log queries a run issues: event name, first and last block.\<close>

datatype query = Query string "int option" int

definition queries :: "string \<Rightarrow> int option \<Rightarrow> int \<Rightarrow> query list" where
  "queries eventName fromBlock toBlock =
     map (\<lambda>(i, e). Query eventName i e) (block_windows fromBlock toBlock)"

definition detectContractType :: "chain \<Rightarrow> ctype option" where
  "detectContractType c =
     (if supportsERC721 c then Some ERC721
      else if supportsERC1155 c then Some ERC1155
      else if allowanceCallOk c then Some ERC20
      else None)"

subsection \<open>main\<close>

text \<open>
  The choice of the first block to fetch and of the deployment block to persist: the
  branches on the snapshot file, on \<^verbatim>\<open>data.deploymentBlock\<close> (falsy when missing or
  \<open>0\<close>), on its verification and on \<^verbatim>\<open>--refresh\<close>. The result is
  \<^verbatim>\<open>(fromBlock, contractDeploymentBlock)\<close>.
\<close>

definition resolve_blocks :: "args \<Rightarrow> chain \<Rightarrow> snapshot option \<Rightarrow> int option \<times> int option" where
  "resolve_blocks a c file =
     (case file of
        Some data \<Rightarrow>
          (case deploymentBlock data of
             None \<Rightarrow> (Some (startingBlock a), None)
           | Some db \<Rightarrow>
               if db = 0 then (Some (startingBlock a), None)
               else if verifyDeploymentBlock a c db
               then (if refreshData a then Some db else Some (lastCheckedBlock data), Some db)
               else (Some (startingBlock a), getDeploymentBlock a c))
      | None \<Rightarrow> (getDeploymentBlock a c, getDeploymentBlock a c))"

text \<open>The \<^verbatim>\<open>switch (contractType)\<close>: the queries issued and the fresh holders.\<close>

definition run_ledger ::
  "ctype \<Rightarrow> chain \<Rightarrow> int option \<Rightarrow> int \<Rightarrow> query list \<times> (error + (address \<times> ledger_value) list)" where
  "run_ledger contractType c fromBlock currentBlock =
     (case contractType of
        ERC20 \<Rightarrow>
          (queries ''Transfer'' fromBlock currentBlock,
           Inr (map (\<lambda>(h, b). (h, BigIntVal b))
                  (getERC20Holders (getPastEvents (transfer_logs c) fromBlock currentBlock))))
      | ERC721 \<Rightarrow>
          (queries ''Transfer'' fromBlock currentBlock,
           Inr (map (\<lambda>(h, b). (h, NumberVal b))
                  (getERC721Holders (getPastEvents (transfer721_logs c) fromBlock currentBlock))))
      | ERC1155 \<Rightarrow>
          (queries ''TransferSingle'' fromBlock currentBlock
             @ queries ''TransferBatch'' fromBlock currentBlock,
           case getERC1155Holders
                  (getPastEvents (transferSingle_logs c) fromBlock currentBlock)
                  (getPastEvents (transferBatch_logs c) fromBlock currentBlock) of
             Inl e \<Rightarrow> Inl e
           | Inr hs \<Rightarrow> Inr (map (\<lambda>(h, b). (h, BigIntVal b)) hs)))"

text \<open>
  \<^verbatim>\<open>commify(value)\<close>: \<^verbatim>\<open>value\<close> has to match
  \<^verbatim>\<open>/^(-?)([0-9]*)(\.?)([0-9]*)$/\<close> with a digit in one of the two groups of digits,
  else an \<^verbatim>\<open>Error\<close> is thrown. The result is the sign, the whole part as
  \<^verbatim>\<open>BigInt(match[2] || 0).toLocaleString("en-us")\<close> (its digits in groups of three), a
  dot, and the fraction without its trailing zeros, \<^verbatim>\<open>0\<close> when there is no fraction.
\<close>

fun commas :: "string \<Rightarrow> string" where
  "commas (a # b # c # d # rest) = a # b # c # CHR '','' # commas (d # rest)"
| "commas ds = ds"

definition toLocaleString_en_us :: "nat \<Rightarrow> string" where
  "toLocaleString_en_us n = rev (commas (rev (nat_toString n)))"

definition commify :: "string \<Rightarrow> error + string" where
  "commify value =
     (let neg = (case value of [] \<Rightarrow> [] | c # cs \<Rightarrow> if c = CHR ''-'' then [c] else []);
          r1 = drop (length neg) value;
          whole = takeWhile is_digit r1;
          r2 = dropWhile is_digit r1;
          r3 = (case r2 of [] \<Rightarrow> [] | c # cs \<Rightarrow> if c = CHR ''.'' then cs else r2);
          frac = takeWhile is_digit r3;
          rest = dropWhile is_digit r3
      in if rest \<noteq> [] then Inl BadFormattedNumber
         else if whole = [] \<and> frac = [] then Inl BadFormattedNumber
         else Inr (neg @ toLocaleString_en_us (digits_value whole) @ ''.'' @
                   (if frac = [] then ''0''
                    else rev (dropWhile (\<lambda>c. c = CHR ''0'') (rev frac)))))"

text \<open>
  \<^verbatim>\<open>commify(balance.toString())\<close> for a persisted balance. \<^verbatim>\<open>toString\<close> of an
  integer-valued Number is its digit string below \<open>10\<^sup>2\<^sup>1\<close> and is in exponent notation
  from there on, which \<^verbatim>\<open>commify\<close> rejects.
\<close>

definition commify_balance :: "balance_value \<Rightarrow> error + string" where
  "commify_balance balance =
     (case balance of
        Str s \<Rightarrow> commify s
      | Num n \<Rightarrow> if \<bar>n\<bar> < 10 ^ 21 then commify (bigint_toString n) else Inl BadFormattedNumber)"

text \<open>
  \<^verbatim>\<open>sortedHolders.slice(0, 10).forEach(([holder, balance], index) => { console.log(...
  commify(balance.toString()) ...) })\<close>: the lines printed, or the exception of the first call
  of \<^verbatim>\<open>commify\<close> that throws.
\<close>

fun report_lines :: "(address \<times> balance_value) list \<Rightarrow> error + string list" where
  "report_lines [] = Inr []"
| "report_lines ((holder, balance) # rest) =
     (case commify_balance balance of
        Inl e \<Rightarrow> Inl e
      | Inr line \<Rightarrow> (case report_lines rest of
                       Inl e \<Rightarrow> Inl e
                     | Inr ls \<Rightarrow> Inr (line # ls)))"

text \<open>
  How a run ends: \<^verbatim>\<open>main\<close> returns \<^verbatim>\<open>false\<close> before doing anything; an exception
  outside the \<^verbatim>\<open>try\<close> block rejects the promise of \<^verbatim>\<open>main\<close>; an exception inside it
  and before the snapshot is written is caught, and the process exits with status 1; the
  snapshot is written, the report of the top holders throws, the exception is caught and
  the process exits with status 1; or the snapshot is written and the process exits with
  status 0. The last two write the file.
\<close>

datatype outcome =
  ReturnedFalse | Rejected error | Exit1 error | WrittenExit1 snapshot error | Exit0 snapshot

text \<open>
  From \<^verbatim>\<open>fs.writeJsonSync\<close> on: the snapshot is written, then the ten first holders
  are reported, then \<^verbatim>\<open>process.exit(0)\<close>; an exception of the report is caught and
  the process exits with status 1. The CSV file of \<^verbatim>\<open>--csv\<close>, written from the same
  list after the snapshot, and the lines printed are not part of the outcome.
\<close>

definition write_and_report :: "snapshot \<Rightarrow> outcome" where
  "write_and_report written =
     (case report_lines (take 10 (holders written)) of
        Inl e \<Rightarrow> WrittenExit1 written e
      | Inr ls \<Rightarrow> Exit0 written)"

definition main ::
  "(rat \<Rightarrow> rat) \<Rightarrow> args \<Rightarrow> chain \<Rightarrow> snapshot option \<Rightarrow> query list \<times> outcome" where
  "main nearest a c file =
     (case tokenInfo c of
        None \<Rightarrow> ([], ReturnedFalse)
      | Some token \<Rightarrow>
          (case (case file of None \<Rightarrow> Inr [] | Some data \<Rightarrow> load_holders (holders data) []) of
             Inl e \<Rightarrow> ([], Rejected e)
           | Inr existingHolders \<Rightarrow>
               (let fromBlock = fst (resolve_blocks a c file);
                    contractDeploymentBlock = snd (resolve_blocks a c file);
                    currentBlock = blockNumber c
                in case detectContractType c of
                     None \<Rightarrow> ([], Exit1 UnknownTokenType)
                   | Some contractType \<Rightarrow>
                       (case run_ledger contractType c fromBlock currentBlock of
                          (qs, Inl e) \<Rightarrow> (qs, Exit1 e)
                        | (qs, Inr hs) \<Rightarrow>
                            (qs, write_and_report
                                   \<lparr>holders =
                                      snapshot_holders nearest contractType (hasCode c) hs
                                        existingHolders,
                                    lastCheckedBlock = currentBlock,
                                    deploymentBlock = contractDeploymentBlock,
                                    symbol = snd token\<rparr>)))))"

section \<open>Notions used in the statements\<close>

text \<open>
  The fungible ledger read as a map from addresses to balances, without the property
  order: the step of one event on the map.
\<close>

definition madd :: "'k \<Rightarrow> int \<Rightarrow> ('k \<rightharpoonup> int) \<Rightarrow> ('k \<rightharpoonup> int)" where
  "madd a d m = m(a \<mapsto> (case m a of None \<Rightarrow> 0 | Some b \<Rightarrow> b) + d)"

definition erc20_mstep :: "erc20_event \<Rightarrow> (address \<rightharpoonup> int) \<Rightarrow> (address \<rightharpoonup> int)" where
  "erc20_mstep ev m =
     (let m1 = (if from20 ev \<noteq> ZeroAddress then madd (from20 ev) (- int (value20 ev)) m else m)
      in if to20 ev \<noteq> ZeroAddress then madd (to20 ev) (int (value20 ev)) m1 else m1)"

text \<open>The positional single transfers of a batch event.\<close>

definition singles_of_batch :: "batch_event \<Rightarrow> single_event list" where
  "singles_of_batch ev =
     map (\<lambda>(i, v). \<lparr>from_s = from_b ev, to_s = to_b ev, id_s = i, value_s = v\<rparr>)
       (zip (ids_b ev) (values_b ev))"

text \<open>The snapshot file a run has written when it ends.\<close>

definition written_snapshot :: "outcome \<Rightarrow> snapshot option" where
  "written_snapshot out =
     (case out of
        Exit0 written \<Rightarrow> Some written
      | WrittenExit1 written e \<Rightarrow> Some written
      | ReturnedFalse \<Rightarrow> None
      | Rejected e \<Rightarrow> None
      | Exit1 e \<Rightarrow> None)"


text \<open>The parsed numeric balance of an entry of the holder list.\<close>

definition the_num :: "jsnum \<Rightarrow> rat" where
  "the_num x = (case x of NaN \<Rightarrow> 0 | Fin q \<Rightarrow> q)"

definition parsed_balance :: "(rat \<Rightarrow> rat) \<Rightarrow> address \<times> balance_value \<Rightarrow> rat" where
  "parsed_balance nearest entry = the_num (parseFloat nearest (snd entry))"

text \<open>The blocks covered by the log queries of a run.\<close>

definition query_blocks :: "query \<Rightarrow> int set" where
  "query_blocks q = (case q of Query eventName i e \<Rightarrow> {toNumber i .. e})"

definition fetched_blocks :: "query list \<Rightarrow> int set" where
  "fetched_blocks qs = (\<Union>q \<in> set qs. query_blocks q)"

subsection \<open>Example runs\<close>

text \<open>
  A fungible token \<^verbatim>\<open>TKN\<close> at address \<^verbatim>\<open>0xC\<close>, created in block 98, with the chain at
  block 102; no address has code. The argument of \<open>token_chain\<close> gives the
  \<^verbatim>\<open>Transfer\<close> events of each block.
\<close>

definition example_args :: args where
  "example_args = \<lparr>contractAddress = ''0xC'', startingBlock = 0, refreshData = False\<rparr>"

definition refresh_args :: args where
  "refresh_args = \<lparr>contractAddress = ''0xC'', startingBlock = 0, refreshData = True\<rparr>"

definition token_chain :: "(int \<Rightarrow> erc20_event list) \<Rightarrow> chain" where
  "token_chain logs =
     \<lparr>tokenInfo = Some (''Token'', ''TKN''), blockNumber = 102,
      blocks = (\<lambda>b. if b = 98
                     then Some [\<lparr>tx_to = None, receipt_contractAddress = Some ''0xC''\<rparr>]
                     else Some []),
      supportsERC721 = False, supportsERC1155 = False, allowanceCallOk = True,
      transfer_logs = logs,
      transfer721_logs = (\<lambda>b. []), transferSingle_logs = (\<lambda>b. []),
      transferBatch_logs = (\<lambda>b. []), hasCode = (\<lambda>h. False)\<rparr>"

text \<open>
  A snapshot taken at block 100, when \<^verbatim>\<open>0xA\<close> held 10 base units, minted in block 99.
\<close>

definition prior_snapshot :: snapshot where
  "prior_snapshot =
     \<lparr>holders = [(''0xA'', Str ''0.000000000000000010'')], lastCheckedBlock = 100,
      deploymentBlock = Some 98, symbol = ''TKN''\<rparr>"

text \<open>After the snapshot, block 101 mints 5 more base units to \<^verbatim>\<open>0xA\<close>.\<close>

definition topup_logs :: "int \<Rightarrow> erc20_event list" where
  "topup_logs b =
     (if b = 99 then [\<lparr>from20 = ZeroAddress, to20 = ''0xA'', value20 = 10\<rparr>]
      else if b = 101 then [\<lparr>from20 = ZeroAddress, to20 = ''0xA'', value20 = 5\<rparr>]
      else [])"

text \<open>After the snapshot, in block 101, \<^verbatim>\<open>0xA\<close> sends 5 base units to \<^verbatim>\<open>0xB\<close>.\<close>

definition spend_logs :: "int \<Rightarrow> erc20_event list" where
  "spend_logs b =
     (if b = 99 then [\<lparr>from20 = ZeroAddress, to20 = ''0xA'', value20 = 10\<rparr>]
      else if b = 101 then [\<lparr>from20 = ''0xA'', to20 = ''0xB'', value20 = 5\<rparr>]
      else [])"

text \<open>
  A chain at block 3 on which no block creates the contract \<^verbatim>\<open>0xC\<close>; block 2 mints 7
  base units to \<^verbatim>\<open>0xA\<close>.
\<close>

definition chain_no_deployment :: chain where
  "chain_no_deployment =
     \<lparr>tokenInfo = Some (''Token'', ''TKN''), blockNumber = 3, blocks = (\<lambda>b. Some []),
      supportsERC721 = False, supportsERC1155 = False, allowanceCallOk = True,
      transfer_logs =
        (\<lambda>b. if b = 2 then [\<lparr>from20 = ZeroAddress, to20 = ''0xA'', value20 = 7\<rparr>] else []),
      transfer721_logs = (\<lambda>b. []), transferSingle_logs = (\<lambda>b. []),
      transferBatch_logs = (\<lambda>b. []), hasCode = (\<lambda>h. False)\<rparr>"

text \<open>
  A single-owner collection \<^verbatim>\<open>NFT\<close> created in block 1 of a chain at block 3: block 2
  mints token 1 to \<^verbatim>\<open>0xA\<close> and token 2 to \<^verbatim>\<open>0xB\<close>.
\<close>

definition chain_two_mints :: chain where
  "chain_two_mints =
     \<lparr>tokenInfo = Some (''Collection'', ''NFT''), blockNumber = 3,
      blocks = (\<lambda>b. if b = 1
                     then Some [\<lparr>tx_to = None, receipt_contractAddress = Some ''0xC''\<rparr>]
                     else Some []),
      supportsERC721 = True, supportsERC1155 = False, allowanceCallOk = False,
      transfer_logs = (\<lambda>b. []),
      transfer721_logs =
        (\<lambda>b. if b = 2 then [\<lparr>from721 = ZeroAddress, to721 = ''0xA'', tokenId = 1\<rparr>,
                             \<lparr>from721 = ZeroAddress, to721 = ''0xB'', tokenId = 2\<rparr>]
             else []),
      transferSingle_logs = (\<lambda>b. []), transferBatch_logs = (\<lambda>b. []),
      hasCode = (\<lambda>h. False)\<rparr>"

text \<open>
  A multi-token collection \<^verbatim>\<open>ITM\<close> created in block 1 of a chain at block 3. Block 2
  mints 5 units of id 1 and 3 units of id 2 to \<^verbatim>\<open>0xA\<close>; in block 3 \<^verbatim>\<open>0xA\<close> sends them
  to \<^verbatim>\<open>0xB\<close>, in one batch transfer or in two single transfers.
\<close>

definition multi_chain :: "(int \<Rightarrow> single_event list) \<Rightarrow> (int \<Rightarrow> batch_event list) \<Rightarrow> chain" where
  "multi_chain singles batches =
     \<lparr>tokenInfo = Some (''Items'', ''ITM''), blockNumber = 3,
      blocks = (\<lambda>b. if b = 1
                     then Some [\<lparr>tx_to = None, receipt_contractAddress = Some ''0xC''\<rparr>]
                     else Some []),
      supportsERC721 = False, supportsERC1155 = True, allowanceCallOk = False,
      transfer_logs = (\<lambda>b. []), transfer721_logs = (\<lambda>b. []),
      transferSingle_logs = singles, transferBatch_logs = batches,
      hasCode = (\<lambda>h. False)\<rparr>"

definition claim_batch :: batch_event where
  "claim_batch = \<lparr>from_b = ''0xA'', to_b = ''0xB'', ids_b = [1, 2], values_b = [5, 3]\<rparr>"

definition mint_logs :: "int \<Rightarrow> single_event list" where
  "mint_logs b =
     (if b = 2 then [\<lparr>from_s = ZeroAddress, to_s = ''0xA'', id_s = 1, value_s = 5\<rparr>,
                     \<lparr>from_s = ZeroAddress, to_s = ''0xA'', id_s = 2, value_s = 3\<rparr>]
      else [])"

definition batch_logs :: "int \<Rightarrow> batch_event list" where
  "batch_logs b = (if b = 3 then [claim_batch] else [])"

definition singles_logs :: "int \<Rightarrow> single_event list" where
  "singles_logs b = (if b = 3 then singles_of_batch claim_batch else mint_logs b)"

section \<open>Properties of the ledgers\<close>

lemma map_of_add_balance:
  "map_of (add_balance a d bs) =
     (map_of bs)(a \<mapsto> (case map_of bs a of None \<Rightarrow> 0 | Some b \<Rightarrow> b) + d)"
  by (auto simp: add_balance_def Let_def update_conv split: option.splits)

lemma distinct_add_balance:
  "distinct (map fst bs) \<Longrightarrow> distinct (map fst (add_balance a d bs))"
  by (simp add: add_balance_def Let_def distinct_update split: option.splits)

subsection \<open>Single-owner ledger\<close>

text \<open>
  C7. In the single-owner ledger, a mint of token 1 to A followed by a transfer of token 1
  from A to B leaves B as the owner of token 1, leaves A out of the count map (count 0)
  and gives B the count 1. A and B are two distinct holder addresses, neither of them the
  zero address.
\<close>

theorem erc721_mint_then_transfer:
  assumes "A \<noteq> ZeroAddress" and "B \<noteq> ZeroAddress" and "A \<noteq> B"
  shows "map_of (tokenOwners_of
             [\<lparr>from721 = ZeroAddress, to721 = A, tokenId = 1\<rparr>,
              \<lparr>from721 = A, to721 = B, tokenId = 1\<rparr>]) 1 = Some B
       \<and> map_of (getERC721Holders
             [\<lparr>from721 = ZeroAddress, to721 = A, tokenId = 1\<rparr>,
              \<lparr>from721 = A, to721 = B, tokenId = 1\<rparr>]) A = None
       \<and> map_of (getERC721Holders
             [\<lparr>from721 = ZeroAddress, to721 = A, tokenId = 1\<rparr>,
              \<lparr>from721 = A, to721 = B, tokenId = 1\<rparr>]) B = Some 1"
proof -
  have owners: "tokenOwners_of
             [\<lparr>from721 = ZeroAddress, to721 = A, tokenId = 1\<rparr>,
              \<lparr>from721 = A, to721 = B, tokenId = 1\<rparr>] = [(1, B)]"
    using assms by (simp add: tokenOwners_of_def erc721_step_def)
  have vals: "object_values [(1::nat, B)] = [B]"
    by (simp add: object_values_def is_array_index_def)
  have counts: "getERC721Holders
             [\<lparr>from721 = ZeroAddress, to721 = A, tokenId = 1\<rparr>,
              \<lparr>from721 = A, to721 = B, tokenId = 1\<rparr>] = [(B, 1)]"
    unfolding getERC721Holders_def owners vals
    by (simp add: count_owner_def add_balance_def)
  show ?thesis
    unfolding owners counts using assms by simp
qed

theorem erc721_mint_then_transfer_witness:
  "''0xA'' \<noteq> ZeroAddress \<and> ''0xB'' \<noteq> ZeroAddress \<and> ''0xA'' \<noteq> ''0xB''
   \<and> map_of (tokenOwners_of
             [\<lparr>from721 = ZeroAddress, to721 = ''0xA'', tokenId = 1\<rparr>,
              \<lparr>from721 = ''0xA'', to721 = ''0xB'', tokenId = 1\<rparr>]) 1 = Some ''0xB''
   \<and> map_of (getERC721Holders
             [\<lparr>from721 = ZeroAddress, to721 = ''0xA'', tokenId = 1\<rparr>,
              \<lparr>from721 = ''0xA'', to721 = ''0xB'', tokenId = 1\<rparr>]) ''0xA'' = None
   \<and> map_of (getERC721Holders
             [\<lparr>from721 = ZeroAddress, to721 = ''0xA'', tokenId = 1\<rparr>,
              \<lparr>from721 = ''0xA'', to721 = ''0xB'', tokenId = 1\<rparr>]) ''0xB'' = Some 1"
proof -
  have h1: "''0xA'' \<noteq> ZeroAddress" by (simp add: ZeroAddress_def)
  have h2: "''0xB'' \<noteq> ZeroAddress" by (simp add: ZeroAddress_def)
  have h3: "''0xA'' \<noteq> ''0xB''" by simp
  show ?thesis
    using h1 h2 erc721_mint_then_transfer [OF h1 h2 h3] by simp
qed

text \<open>Every count the single-owner ledger returns is at least one.\<close>

lemma count_owner_positive:
  assumes "\<forall>h n. map_of acc h = Some n \<longrightarrow> 1 \<le> n"
  shows "\<forall>h n. map_of (fold count_owner owners acc) h = Some n \<longrightarrow> 1 \<le> n"
  using assms
proof (induction owners arbitrary: acc)
  case Nil
  then show ?case by simp
next
  case (Cons owner owners)
  have "\<forall>h n. map_of (count_owner owner acc) h = Some n \<longrightarrow> 1 \<le> n"
  proof (intro allI impI)
    fix h n assume hn: "map_of (count_owner owner acc) h = Some n"
    show "1 \<le> n"
    proof (cases "h = owner")
      case True
      have "0 \<le> (case map_of acc owner of None \<Rightarrow> 0 | Some b \<Rightarrow> b)"
        using Cons.prems by (cases "map_of acc owner") fastforce+
      with hn True show ?thesis
        by (simp add: count_owner_def map_of_add_balance)
    next
      case False
      with hn have "map_of acc h = Some n"
        by (simp add: count_owner_def map_of_add_balance)
      with Cons.prems show ?thesis by blast
    qed
  qed
  then show ?case
    by (simp add: Cons.IH)
qed

lemma distinct_fold_count_owner:
  "distinct (map fst acc) \<Longrightarrow> distinct (map fst (fold count_owner owners acc))"
  by (induction owners arbitrary: acc) (simp_all add: count_owner_def distinct_add_balance)

lemma distinct_getERC721Holders: "distinct (map fst (getERC721Holders evs))"
  by (simp add: getERC721Holders_def distinct_fold_count_owner)

lemma getERC721Holders_positive:
  assumes "(h, n) \<in> set (getERC721Holders evs)"
  shows "1 \<le> n"
proof -
  from assms have "map_of (getERC721Holders evs) h = Some n"
    by (simp add: distinct_getERC721Holders)
  moreover have "\<forall>h n. map_of (getERC721Holders evs) h = Some n \<longrightarrow> 1 \<le> n"
    unfolding getERC721Holders_def by (rule count_owner_positive) simp
  ultimately show ?thesis by blast
qed

subsection \<open>Fungible ledger\<close>

lemma distinct_fold_erc20_step:
  "distinct (map fst bs) \<Longrightarrow> distinct (map fst (fold erc20_step evs bs))"
  by (induction evs arbitrary: bs) (simp_all add: erc20_step_def Let_def distinct_add_balance)

lemma distinct_getERC20Holders: "distinct (map fst (getERC20Holders evs))"
  by (simp add: getERC20Holders_def distinct_fold_erc20_step)

lemma map_of_add_balance_madd: "map_of (add_balance a d bs) = madd a d (map_of bs)"
  by (simp add: map_of_add_balance madd_def)

lemma madd_commute: "madd a d (madd b e m) = madd b e (madd a d m)"
  by (auto simp: madd_def fun_eq_iff)

lemma map_of_erc20_step: "map_of (erc20_step ev bs) = erc20_mstep ev (map_of bs)"
  by (simp add: erc20_step_def erc20_mstep_def Let_def map_of_add_balance_madd)

lemma map_of_fold_erc20_step:
  "map_of (fold erc20_step evs bs) = fold erc20_mstep evs (map_of bs)"
  by (induction evs arbitrary: bs) (simp_all add: map_of_erc20_step)

lemma erc20_mstep_commute: "erc20_mstep x \<circ> erc20_mstep y = erc20_mstep y \<circ> erc20_mstep x"
  by (simp add: fun_eq_iff erc20_mstep_def Let_def madd_commute)

text \<open>
  C6. Two fungible transfer-event sequences that are permutations of each other (the same
  multiset of (from, to, value) events) give the same balance of every address, and the
  same set of addresses: the balance maps of the fungible ledger are identical.
\<close>

theorem erc20_permutation_invariant:
  assumes "mset es = mset es'"
  shows "map_of (getERC20Holders es) = map_of (getERC20Holders es')"
proof -
  have "fold erc20_mstep es = fold erc20_mstep es'"
    by (rule fold_multiset_equiv) (simp_all add: erc20_mstep_commute assms)
  then show ?thesis
    by (simp add: getERC20Holders_def map_of_fold_erc20_step)
qed

theorem erc20_permutation_invariant_witness:
  "mset [\<lparr>from20 = ZeroAddress, to20 = ''0xA'', value20 = 7\<rparr>,
         \<lparr>from20 = ''0xA'', to20 = ''0xB'', value20 = 3\<rparr>]
     = mset [\<lparr>from20 = ''0xA'', to20 = ''0xB'', value20 = 3\<rparr>,
             \<lparr>from20 = ZeroAddress, to20 = ''0xA'', value20 = 7\<rparr>]
   \<and> map_of (getERC20Holders
               [\<lparr>from20 = ZeroAddress, to20 = ''0xA'', value20 = 7\<rparr>,
                \<lparr>from20 = ''0xA'', to20 = ''0xB'', value20 = 3\<rparr>])
     = map_of (getERC20Holders
               [\<lparr>from20 = ''0xA'', to20 = ''0xB'', value20 = 3\<rparr>,
                \<lparr>from20 = ZeroAddress, to20 = ''0xA'', value20 = 7\<rparr>])"
proof -
  have h: "mset [\<lparr>from20 = ZeroAddress, to20 = ''0xA'', value20 = 7\<rparr>,
                 \<lparr>from20 = ''0xA'', to20 = ''0xB'', value20 = 3\<rparr>]
         = mset [\<lparr>from20 = ''0xA'', to20 = ''0xB'', value20 = 3\<rparr>,
                 \<lparr>from20 = ZeroAddress, to20 = ''0xA'', value20 = 7\<rparr>]"
    by (simp add: add_mset_commute)
  from h erc20_permutation_invariant [OF h] show ?thesis
    by (rule conjI)
qed

subsection \<open>Multi-token ledger\<close>

text \<open>
  Of the names that the ledgers destructure from the arguments of an event, \<^verbatim>\<open>values\<close> is
  the only one that is the name of a method.
\<close>

lemma destructured_names:
  "result_get ''from'' x = Argument x" "result_get ''to'' x = Argument x"
  "result_get ''value'' x = Argument x" "result_get ''tokenId'' x = Argument x"
  "result_get ''id'' x = Argument x" "result_get ''ids'' x = Argument x"
  "result_get ''values'' x = Method"
  by (simp_all add: result_get_def array_methods_def)

lemma batch_loop_Method:
  "batch_loop f t is Method index balances = (if is = [] then Inr balances else Inl TypeError)"
  by (cases "is") (simp_all add: value_at_def)

lemma batch_step_throws:
  "batch_step ev balances = (if ids_b ev = [] then Inr balances else Inl TypeError)"
  by (simp add: batch_step_def destructured_names batch_loop_Method)

text \<open>
  C5. In the multi-token ledger, one batch transfer with ids [1, 2] and values [5, 3] from
  A to B gives the same balances as the two single transfers (id 1, value 5) and (id 2,
  value 3) from A to B, and every batch event whose id and value arrays have the same
  length is balance-equivalent to its positional single transfers. The code misses this.
  The batch loop takes the values from the property \<^verbatim>\<open>values\<close> of the event arguments,
  which is the method of that name and not the decoded array, so the read of
  \<^verbatim>\<open>values[index]\<close> is \<^verbatim>\<open>undefined\<close> and the loop throws a TypeError at the first id:
  the batch step fails on every event that has an id, whatever the state of the balances
  and whatever the values. For the event of the claim the ledger throws, where the ledger
  of its two single transfers returns \<open>-8\<close> for A and \<open>8\<close> for B. In the runs evaluated
  here A has been minted the 5 and the 3 units: the run over the batch transfer ends with
  status 1 after its queries and writes nothing, the run over the two single transfers
  writes the snapshot in which B holds 8.
\<close>

theorem batch_transfer_throws:
  "result_get ''values'' (values_b ev) = Method
   \<and> batch_step ev balances = (if ids_b ev = [] then Inr balances else Inl TypeError)
   \<and> getERC1155Holders [] [claim_batch] = Inl TypeError
   \<and> singles_of_batch claim_batch
       = [\<lparr>from_s = ''0xA'', to_s = ''0xB'', id_s = 1, value_s = 5\<rparr>,
          \<lparr>from_s = ''0xA'', to_s = ''0xB'', id_s = 2, value_s = 3\<rparr>]
   \<and> getERC1155Holders (singles_of_batch claim_batch) []
       = Inr [(''0xA'', - 8), (''0xB'', 8)]
   \<and> main id example_args (multi_chain mint_logs batch_logs) None
       = ([Query ''TransferSingle'' (Some 1) 3, Query ''TransferBatch'' (Some 1) 3],
          Exit1 TypeError)
   \<and> main id example_args (multi_chain singles_logs (\<lambda>b. [])) None
       = ([Query ''TransferSingle'' (Some 1) 3, Query ''TransferBatch'' (Some 1) 3],
          Exit0 \<lparr>holders = [(''0xB'', Num 8)], lastCheckedBlock = 3,
                 deploymentBlock = Some 1, symbol = ''ITM''\<rparr>)"
proof -
  have 1: "result_get ''values'' (values_b ev) = Method"
    by (rule destructured_names)
  have 2: "batch_step ev balances = (if ids_b ev = [] then Inr balances else Inl TypeError)"
    by (rule batch_step_throws)
  have 3: "getERC1155Holders [] [claim_batch] = Inl TypeError"
    by (simp add: getERC1155Holders_def balances1155_of_def batch_step_throws claim_batch_def)
  have 4: "singles_of_batch claim_batch
       = [\<lparr>from_s = ''0xA'', to_s = ''0xB'', id_s = 1, value_s = 5\<rparr>,
          \<lparr>from_s = ''0xA'', to_s = ''0xB'', id_s = 2, value_s = 3\<rparr>]"
    by (simp add: singles_of_batch_def claim_batch_def)
  have 5: "getERC1155Holders (singles_of_batch claim_batch) []
       = Inr [(''0xA'', - 8), (''0xB'', 8)]"
    by code_simp
  have 6: "main id example_args (multi_chain mint_logs batch_logs) None
       = ([Query ''TransferSingle'' (Some 1) 3, Query ''TransferBatch'' (Some 1) 3],
          Exit1 TypeError)"
    by code_simp
  have 7: "main id example_args (multi_chain singles_logs (\<lambda>b. [])) None
       = ([Query ''TransferSingle'' (Some 1) 3, Query ''TransferBatch'' (Some 1) 3],
          Exit0 \<lparr>holders = [(''0xB'', Num 8)], lastCheckedBlock = 3,
                 deploymentBlock = Some 1, symbol = ''ITM''\<rparr>)"
    by code_simp
  from 1 2 3 4 5 6 7 show ?thesis
    by (intro conjI)
qed


lemma distinct_sum_ids:
  "distinct (map fst hs) \<Longrightarrow> distinct (map fst (sum_ids entry hs))"
proof -
  have "distinct (map fst hs) \<Longrightarrow>
      distinct (map fst (fold (\<lambda>(i, b). add_balance a b) inner hs))" for a :: address and inner
    by (induction inner arbitrary: hs) (auto simp: distinct_add_balance)
  then show "distinct (map fst hs) \<Longrightarrow> distinct (map fst (sum_ids entry hs))"
    by (simp add: sum_ids_def)
qed

lemma distinct_holders_of_balances: "distinct (map fst (holders_of_balances balances))"
proof -
  have "distinct (map fst hs) \<Longrightarrow> distinct (map fst (fold sum_ids bal hs))" for bal hs
    by (induction bal arbitrary: hs) (simp_all add: distinct_sum_ids)
  then show ?thesis
    by (simp add: holders_of_balances_def)
qed

section \<open>Formatting and reloading\<close>

lemma is_digit_digit_char: "d < 10 \<Longrightarrow> is_digit (digit_char d)"
proof -
  assume "d < 10"
  then have "d \<in> {0, 1, 2, 3, 4, 5, 6, 7, 8, 9}" by auto
  then show ?thesis by (auto simp: is_digit_def digit_char_def)
qed

lemma digit_val_digit_char: "d < 10 \<Longrightarrow> digit_val (digit_char d) = d"
proof -
  assume "d < 10"
  then have "d \<in> {0, 1, 2, 3, 4, 5, 6, 7, 8, 9}" by auto
  then show ?thesis by (auto simp: digit_val_def digit_char_def)
qed

lemma is_digit_zero: "is_digit CHR ''0''"
  by (simp add: is_digit_def)

lemma not_digit_signs:
  "\<not> is_digit CHR ''-''" "\<not> is_digit CHR ''+''" "\<not> is_digit CHR ''.''"
  by (simp_all add: is_digit_def)

lemma nat_toString_digits: "list_all is_digit (nat_toString n)"
proof (induction n rule: nat_toString.induct)
  case (1 n)
  show ?case
    by (subst nat_toString.simps) (use 1 in \<open>auto simp: is_digit_digit_char\<close>)
qed

lemma nat_toString_nonempty: "nat_toString n \<noteq> []"
  by (subst nat_toString.simps) simp

lemma digits_value_snoc: "digits_value (ds @ [c]) = 10 * digits_value ds + digit_val c"
  by (simp add: digits_value_def)

lemma digits_value_nat_toString: "digits_value (nat_toString n) = n"
proof (induction n rule: nat_toString.induct)
  case (1 n)
  show ?case
  proof (cases "n < 10")
    case True
    then show ?thesis
      by (subst nat_toString.simps) (simp add: digits_value_def digit_val_digit_char)
  next
    case False
    then show ?thesis
      by (subst nat_toString.simps)
        (use 1 in \<open>simp add: digits_value_snoc digit_val_digit_char\<close>)
  qed
qed

lemma digits_value_zeros: "digits_value (replicate k CHR ''0'' @ ds) = digits_value ds"
proof -
  have z: "digit_val CHR ''0'' = 0"
    by (simp add: digit_val_def)
  have "foldl (\<lambda>a c. 10 * a + digit_val c) 0 (replicate k CHR ''0'') = 0"
    by (induction k) (simp_all add: z)
  then show ?thesis by (simp add: digits_value_def)
qed

lemma BigInt_of_string_digits:
  "s \<noteq> [] \<Longrightarrow> list_all is_digit s \<Longrightarrow> BigInt_of_string s = Inr (int (digits_value s))"
  by (simp add: BigInt_of_string_def)

lemma replace_dot_append: "CHR ''.'' \<notin> set a \<Longrightarrow> replace_dot (a @ CHR ''.'' # b) = a @ b"
  by (induction a) auto

lemma is_digit_not_dot:
  assumes "list_all is_digit s"
  shows "CHR ''.'' \<notin> set s"
proof
  assume "CHR ''.'' \<in> set s"
  with assms have "is_digit CHR ''.''"
    by (simp add: list_all_iff)
  then show False
    by (simp add: is_digit_def)
qed

lemma format_split:
  "formatBigIntToDecimal n =
     take (length (padStart 19 CHR ''0'' (bigint_toString n)) - 18)
          (padStart 19 CHR ''0'' (bigint_toString n))
     @ CHR ''.'' #
     drop (length (padStart 19 CHR ''0'' (bigint_toString n)) - 18)
          (padStart 19 CHR ''0'' (bigint_toString n))"
  by (simp add: formatBigIntToDecimal_def Let_def)

lemma length_padStart: "length (padStart k c s) = max k (length s)"
  by (simp add: padStart_def)

lemma padded_nonneg_digits:
  assumes "0 \<le> n"
  shows "list_all is_digit (padStart 19 CHR ''0'' (bigint_toString n))"
  using assms nat_toString_digits [of "nat n"] is_digit_zero
  by (auto simp: padStart_def bigint_toString_def list_all_iff)

text \<open>A balance that is not negative is written with 18 fractional digits and reloads.\<close>

lemma replace_dot_format_nonneg:
  assumes "0 \<le> n"
  shows "replace_dot (formatBigIntToDecimal n) = padStart 19 CHR ''0'' (bigint_toString n)"
proof -
  let ?p = "padStart 19 CHR ''0'' (bigint_toString n)"
  have "list_all is_digit (take (length ?p - 18) ?p)"
    using padded_nonneg_digits [OF assms] by (auto simp: list_all_iff dest: in_set_takeD)
  then have "CHR ''.'' \<notin> set (take (length ?p - 18) ?p)"
    by (rule is_digit_not_dot)
  then show ?thesis
    by (simp add: format_split [of n] replace_dot_append)
qed

lemma reload_format_nonneg:
  assumes "0 \<le> n"
  shows "load_balance (Str (formatBigIntToDecimal n)) = Inr n"
proof -
  let ?p = "padStart 19 CHR ''0'' (bigint_toString n)"
  have ne: "?p \<noteq> []"
    using assms by (simp add: padStart_def bigint_toString_def nat_toString_nonempty)
  have val: "digits_value ?p = nat n"
    using assms
    by (simp add: padStart_def bigint_toString_def digits_value_zeros digits_value_nat_toString)
  have "BigInt_of_string ?p = Inr (int (digits_value ?p))"
    using ne padded_nonneg_digits [OF assms] by (rule BigInt_of_string_digits)
  also have "\<dots> = Inr n"
    using assms by (simp only: val) simp
  finally show ?thesis
    by (simp add: load_balance_def replace_dot_format_nonneg [OF assms])
qed

lemma fraction_digits_nonneg:
  assumes "0 \<le> n"
  shows "\<exists>ip fp. formatBigIntToDecimal n = ip @ CHR ''.'' # fp \<and> ip \<noteq> []
          \<and> list_all is_digit ip \<and> list_all is_digit fp \<and> length fp = 18"
proof -
  let ?p = "padStart 19 CHR ''0'' (bigint_toString n)"
  have dig: "list_all is_digit ?p"
    by (rule padded_nonneg_digits [OF assms])
  have len: "19 \<le> length ?p"
    by (simp add: length_padStart)
  have "list_all is_digit (take (length ?p - 18) ?p)"
    using dig by (auto simp: list_all_iff dest: in_set_takeD)
  moreover have "list_all is_digit (drop (length ?p - 18) ?p)"
    using dig by (auto simp: list_all_iff dest: in_set_dropD)
  moreover have "take (length ?p - 18) ?p \<noteq> []"
    using len by auto
  moreover have "length (drop (length ?p - 18) ?p) = 18"
    using len by simp
  ultimately show ?thesis
    using format_split [of n] by blast
qed

text \<open>
  \<^verbatim>\<open>commify\<close> on some strings: a negative count, a fraction that is all zeros, the
  exponent notation of a Number, and a balance with the padding in front of its sign.
\<close>

lemma commify_examples:
  "commify ''-8'' = Inr ''-8.0''" "commify ''5.000'' = Inr ''5.''"
  "commify ''1e+21'' = Inl BadFormattedNumber"
  "commify ''0.0000000000000000-5'' = Inl BadFormattedNumber"
  by code_simp+

text \<open>The report of the top holders accepts every balance that is not negative.\<close>

lemma commify_format_nonneg:
  assumes "0 \<le> n"
  shows "\<exists>line. commify (formatBigIntToDecimal n) = Inr line"
proof -
  from fraction_digits_nonneg [OF assms] obtain ip fp where
    f: "formatBigIntToDecimal n = ip @ CHR ''.'' # fp" and ne: "ip \<noteq> []"
    and dip: "list_all is_digit ip" and dfp: "list_all is_digit fp"
    by blast
  obtain c cs where ip: "ip = c # cs"
    using ne by (cases ip) auto
  with dip have "is_digit c" by simp
  then have cm: "c \<noteq> CHR ''-''"
    using not_digit_signs by auto
  have tw: "takeWhile is_digit (ip @ CHR ''.'' # fp) = ip"
    using dip not_digit_signs(3) by (simp add: takeWhile_append2 list_all_iff)
  have dw: "dropWhile is_digit (ip @ CHR ''.'' # fp) = CHR ''.'' # fp"
    using dip not_digit_signs(3) by (simp add: dropWhile_append2 list_all_iff)
  have tf: "takeWhile is_digit fp = fp" "dropWhile is_digit fp = []"
    using dfp by (simp_all add: list_all_iff)
  have neg: "(case ip @ CHR ''.'' # fp of [] \<Rightarrow> [] | c # cs \<Rightarrow> if c = CHR ''-'' then [c] else [])
      = []"
    using cm by (simp add: ip)
  show ?thesis
    unfolding f commify_def Let_def neg
    using ne by (simp add: tw dw tf)
qed

text \<open>
  C10. Persisted balances reload losslessly: loading a persisted balance and formatting it
  again gives the persisted value, and \<^verbatim>\<open>formatBigIntToDecimal\<close> always writes exactly 18
  fractional digits. The code does this for balances that are not negative
  (\<open>reload_format_nonneg\<close>, \<open>fraction_digits_nonneg\<close>) and misses the sign of a negative
  balance of fewer than 18 digits: the padding goes in front of the minus sign. In the run
  evaluated here \<^verbatim>\<open>0xA\<close>, a holder of the prior snapshot, sends 5 base units after the
  checkpoint; its balance over the fetched range is \<open>-5\<close>, it is persisted as
  \<^verbatim>\<open>0.0000000000000000-5\<close> (the run then exits with status 1, as \<^verbatim>\<open>commify\<close> throws
  on that string in the report of the top holders), and the next run on that snapshot ends
  in a SyntaxError when it loads the holders.
\<close>

theorem negative_balance_not_reloadable:
  "formatBigIntToDecimal (- 5) = ''0.0000000000000000-5''
   \<and> load_balance (Str (formatBigIntToDecimal (- 5))) = Inl SyntaxError
   \<and> main id example_args (token_chain spend_logs) (Some prior_snapshot)
       = ([Query ''Transfer'' (Some 100) 102],
          WrittenExit1
            \<lparr>holders = [(''0xB'', Str ''0.000000000000000005''),
                        (''0xA'', Str ''0.0000000000000000-5'')],
             lastCheckedBlock = 102, deploymentBlock = Some 98, symbol = ''TKN''\<rparr>
            BadFormattedNumber)
   \<and> main id example_args (token_chain spend_logs)
         (Some \<lparr>holders = [(''0xB'', Str ''0.000000000000000005''),
                            (''0xA'', Str ''0.0000000000000000-5'')],
                 lastCheckedBlock = 102, deploymentBlock = Some 98, symbol = ''TKN''\<rparr>)
       = ([], Rejected SyntaxError)"
proof -
  have 1: "formatBigIntToDecimal (- 5) = ''0.0000000000000000-5''"
    by code_simp
  have 2: "load_balance (Str (formatBigIntToDecimal (- 5))) = Inl SyntaxError"
    by code_simp
  have 3: "main id example_args (token_chain spend_logs) (Some prior_snapshot)
       = ([Query ''Transfer'' (Some 100) 102],
          WrittenExit1
            \<lparr>holders = [(''0xB'', Str ''0.000000000000000005''),
                        (''0xA'', Str ''0.0000000000000000-5'')],
             lastCheckedBlock = 102, deploymentBlock = Some 98, symbol = ''TKN''\<rparr>
            BadFormattedNumber)"
    by code_simp
  have 4: "main id example_args (token_chain spend_logs)
         (Some \<lparr>holders = [(''0xB'', Str ''0.000000000000000005''),
                            (''0xA'', Str ''0.0000000000000000-5'')],
                 lastCheckedBlock = 102, deploymentBlock = Some 98, symbol = ''TKN''\<rparr>)
       = ([], Rejected SyntaxError)"
    by code_simp
  from 1 2 3 4 show ?thesis
    by (intro conjI)
qed

text \<open>Every formatted balance, negative or not, starts with a decimal literal.\<close>

lemma decimal_prefix_digit:
  assumes "is_digit c"
  shows "decimal_prefix (c # cs) \<noteq> None"
proof -
  from assms have "c \<noteq> CHR ''-''" "c \<noteq> CHR ''+''"
    using not_digit_signs by auto
  with assms show ?thesis
    by (simp add: decimal_prefix_def Let_def)
qed

lemma decimal_prefix_minus_digit:
  assumes "is_digit c"
  shows "decimal_prefix (CHR ''-'' # c # cs) \<noteq> None"
  using assms by (simp add: decimal_prefix_def Let_def)

lemma decimal_prefix_minus_dot_digit:
  assumes "is_digit c"
  shows "decimal_prefix (CHR ''-'' # CHR ''.'' # c # cs) \<noteq> None"
  using assms not_digit_signs(3) by (simp add: decimal_prefix_def Let_def)

lemma decimal_prefix_format: "decimal_prefix (formatBigIntToDecimal n) \<noteq> None"
proof (cases "0 \<le> n")
  case True
  let ?p = "padStart 19 CHR ''0'' (bigint_toString n)"
  have len: "19 \<le> length ?p"
    by (simp add: length_padStart)
  then obtain c q where p: "?p = c # q"
    by (cases ?p) auto
  with len have "length (c # q) - 18 = Suc (length q - 18)" by simp
  then have "take (length (c # q) - 18) (c # q) = c # take (length q - 18) q"
    by (simp only: take_Suc_Cons)
  then have "formatBigIntToDecimal n
      = c # (take (length q - 18) q @ CHR ''.'' # drop (length ?p - 18) ?p)"
    by (simp add: format_split [of n] p)
  moreover have "is_digit c"
    using padded_nonneg_digits [OF True] p by simp
  ultimately show ?thesis
    by (simp add: decimal_prefix_digit)
next
  case False
  define ds where "ds = nat_toString (nat (- n))"
  have str: "bigint_toString n = CHR ''-'' # ds"
    using False by (simp add: bigint_toString_def ds_def)
  have dig: "list_all is_digit ds" and ne: "ds \<noteq> []"
    by (simp_all add: ds_def nat_toString_digits nat_toString_nonempty)
  show ?thesis
  proof (cases "length ds < 18")
    case True
    then have "padStart 19 CHR ''0'' (bigint_toString n)
        = CHR ''0'' # replicate (17 - length ds) CHR ''0'' @ CHR ''-'' # ds"
      by (simp add: str padStart_def Suc_diff_le flip: replicate_Suc)
    moreover have "length (padStart 19 CHR ''0'' (bigint_toString n)) = 19"
      using True by (simp add: length_padStart str)
    ultimately obtain cs where "formatBigIntToDecimal n = CHR ''0'' # cs"
      by (simp add: format_split [of n])
    then show ?thesis
      using decimal_prefix_digit [OF is_digit_zero, of cs] by simp
  next
    case long: False
    then have pad: "padStart 19 CHR ''0'' (bigint_toString n) = CHR ''-'' # ds"
      by (simp add: str padStart_def)
    from long have "length (CHR ''-'' # ds) - 18 = Suc (length ds - 18)"
      by simp
    then have fmt: "formatBigIntToDecimal n
        = CHR ''-'' # (take (length ds - 18) ds @ CHR ''.'' # drop (length ds - 18) ds)"
      by (simp add: format_split [of n] pad)
    obtain c cs where ds: "ds = c # cs"
      using ne by (cases ds) auto
    with dig have c: "is_digit c" by simp
    show ?thesis
    proof (cases "length ds = 18")
      case True
      then show ?thesis
        using c by (simp add: fmt ds decimal_prefix_minus_dot_digit)
    next
      case False
      with long have "length ds - 18 = Suc (length ds - 19)" by simp
      then have "take (length ds - 18) ds = c # take (length ds - 19) cs"
        by (simp add: ds)
      then show ?thesis
        using c by (simp add: fmt decimal_prefix_minus_digit)
    qed
  qed
qed

lemma parseFloat_stored: "parseFloat n (stored_balance n ct v) \<noteq> NaN"
  using decimal_prefix_format [of "ledger_int v"]
  by (auto simp: parseFloat_def stored_balance_def split: option.splits)

section \<open>The merge\<close>

lemma load_holders_distinct:
  "load_holders xs acc = Inr ex \<Longrightarrow> distinct (map fst acc) \<Longrightarrow> distinct (map fst ex)"
proof (induction xs acc rule: load_holders.induct)
  case (1 acc)
  then show ?case by simp
next
  case (2 address balance rest acc)
  then show ?case
    by (auto simp: distinct_update split: sum.splits)
qed

lemma map_of_merge_step:
  "map_of (merge_step n ct isC e ex) =
     (if not_0n (snd e) \<and> \<not> isC (fst e)
      then (map_of ex)(fst e \<mapsto> stored_balance n ct (snd e))
      else (map_of ex)(fst e := None))"
  by (simp add: merge_step_def update_conv' delete_conv')

lemma distinct_merge_step:
  "distinct (map fst ex) \<Longrightarrow> distinct (map fst (merge_step n ct isC e ex))"
  by (simp add: merge_step_def distinct_update distinct_delete)

lemma merge_holders_Cons:
  "merge_holders n ct isC (e # hs) ex = merge_holders n ct isC hs (merge_step n ct isC e ex)"
  by (simp add: merge_holders_def)

lemma distinct_merge_holders:
  "distinct (map fst ex) \<Longrightarrow> distinct (map fst (merge_holders n ct isC hs ex))"
  by (induction hs arbitrary: ex) (simp_all add: merge_holders_def distinct_merge_step)

text \<open>
  The merged object as a map: an address of the fresh computation gets the stored form of
  its fresh balance, or is removed; every other address keeps its entry.
\<close>

lemma map_of_merge_holders:
  assumes "distinct (map fst hs)"
  shows "map_of (merge_holders n ct isC hs ex) a =
     (case map_of hs a of
        None \<Rightarrow> map_of ex a
      | Some v \<Rightarrow> if not_0n v \<and> \<not> isC a then Some (stored_balance n ct v) else None)"
  using assms
proof (induction hs arbitrary: ex)
  case Nil
  then show ?case by (simp add: merge_holders_def)
next
  case (Cons e hs)
  obtain h v where e: "e = (h, v)" by (cases e)
  from Cons.prems have notin: "h \<notin> fst ` set hs" and d: "distinct (map fst hs)"
    by (auto simp: e)
  have "map_of (merge_holders n ct isC ((h, v) # hs) ex) a =
     (case map_of ((h, v) # hs) a of
        None \<Rightarrow> map_of ex a
      | Some v \<Rightarrow> if not_0n v \<and> \<not> isC a then Some (stored_balance n ct v) else None)"
  proof (cases "h = a")
    case True
    with notin have "map_of hs a = None"
      by (simp add: map_of_eq_None_iff)
    then show ?thesis
      using True by (simp add: merge_holders_Cons Cons.IH [OF d] map_of_merge_step)
  next
    case False
    then show ?thesis
      by (simp add: merge_holders_Cons Cons.IH [OF d] map_of_merge_step split: option.splits)
  qed
  then show ?case
    by (simp only: e)
qed

lemma map_of_reformat_existing:
  "map_of (reformat_existing n ct ex) a
     = map_option (\<lambda>b. stored_balance n ct (BigIntVal b)) (map_of ex a)"
  by (induction ex) auto

lemma keys_reformat_existing: "map fst (reformat_existing n ct ex) = map fst ex"
  by (induction ex) auto

lemma values_reformat_existing:
  "e \<in> set (reformat_existing n ct ex) \<Longrightarrow> \<exists>v. snd e = stored_balance n ct v"
  by (induction ex) fastforce+

subsection \<open>The sort is a stable permutation\<close>

lemma mset_insert_sorted: "mset (insert_sorted cmp x ys) = add_mset x (mset ys)"
  by (induction ys) simp_all

lemma mset_js_sort: "mset (js_sort cmp xs) = mset xs"
  by (induction xs) (simp_all add: js_sort_def mset_insert_sorted)

lemma set_js_sort: "set (js_sort cmp xs) = set xs"
  using mset_js_sort [of cmp xs] by (metis set_mset_mset)

lemma distinct_keys_js_sort:
  assumes "distinct (map fst xs)"
  shows "distinct (map fst (js_sort cmp xs))"
proof -
  have "mset (map fst (js_sort cmp xs)) = mset (map fst xs)"
    by (simp add: mset_js_sort)
  with assms show ?thesis
    by (metis mset_eq_imp_distinct_iff)
qed

lemma map_of_js_sort:
  assumes "distinct (map fst xs)"
  shows "map_of (js_sort cmp xs) = map_of xs"
  using assms distinct_keys_js_sort [OF assms, of cmp]
  by (simp add: map_of_inject_set set_js_sort)

lemma map_of_snapshot_holders:
  assumes "distinct (map fst hs)" and "distinct (map fst ex)"
  shows "map_of (snapshot_holders n ct isC hs ex) a =
     (case map_of hs a of
        None \<Rightarrow> map_option (\<lambda>b. stored_balance n ct (BigIntVal b)) (map_of ex a)
      | Some v \<Rightarrow> if not_0n v \<and> \<not> isC a then Some (stored_balance n ct v) else None)"
proof -
  have "distinct (map fst (merge_holders n ct isC hs (reformat_existing n ct ex)))"
    using assms(2) by (simp add: distinct_merge_holders keys_reformat_existing)
  then show ?thesis
    by (simp add: snapshot_holders_def sort_holders_def map_of_js_sort
        map_of_merge_holders [OF assms(1)] map_of_reformat_existing split: option.splits)
qed


text \<open>
  C1. Accumulation across runs happens at the merge step. As amended: the merge does not
  accumulate. For every address that is in the prior snapshot and in the fresh computation
  (each an object, so with distinct keys), the persisted entry is the stored form of the
  balance of the fresh range alone when that balance passes \<^verbatim>\<open>!== 0n\<close> and the address
  is not a contract, and the address is removed otherwise; the prior balance does not enter
  the result.
\<close>

theorem merge_overwrites:
  assumes "distinct (map fst fresh)" and "distinct (map fst existingHolders)"
    and "map_of fresh a = Some b" and "map_of existingHolders a = Some p"
  shows "map_of (snapshot_holders nearest ct isContract fresh existingHolders) a =
     (if not_0n b \<and> \<not> isContract a then Some (stored_balance nearest ct b) else None)"
  using assms by (simp add: map_of_snapshot_holders)

theorem merge_overwrites_witness:
  "distinct (map fst [(''0xA'', BigIntVal 5)]) \<and> distinct (map fst [(''0xA'', 10 :: int)])
   \<and> map_of [(''0xA'', BigIntVal 5)] ''0xA'' = Some (BigIntVal 5)
   \<and> map_of [(''0xA'', 10 :: int)] ''0xA'' = Some 10
   \<and> map_of (snapshot_holders id ERC20 (\<lambda>h. False) [(''0xA'', BigIntVal 5)] [(''0xA'', 10)])
        ''0xA''
      = (if not_0n (BigIntVal 5) \<and> \<not> False
         then Some (stored_balance id ERC20 (BigIntVal 5)) else None)"
proof -
  have h1: "distinct (map fst [(''0xA'', BigIntVal 5)])" by simp
  have h2: "distinct (map fst [(''0xA'', 10 :: int)])" by simp
  have h3: "map_of [(''0xA'', BigIntVal 5)] ''0xA'' = Some (BigIntVal 5)" by simp
  have h4: "map_of [(''0xA'', 10 :: int)] ''0xA'' = Some 10" by simp
  have th: "map_of (snapshot_holders id ERC20 (\<lambda>h. False) [(''0xA'', BigIntVal 5)]
        [(''0xA'', 10)]) ''0xA''
      = (if not_0n (BigIntVal 5) \<and> \<not> False
         then Some (stored_balance id ERC20 (BigIntVal 5)) else None)"
    by (rule merge_overwrites [where isContract = "\<lambda>h. False" and p = 10]) simp_all
  from h1 h2 h3 h4 th show ?thesis
    by (intro conjI)
qed

text \<open>
  C1, as stated, fails on the example run: the prior snapshot holds 10 base units
  for \<^verbatim>\<open>0xA\<close> and block 101 mints 5 more. The resumed run persists 5, the balance of
  the fetched range, where the sum is 15, which is what the replay of the whole history
  (the run with \<^verbatim>\<open>--refresh\<close>) persists.
\<close>

theorem merge_accumulates_counterexample:
  "load_holders (holders prior_snapshot) [] = Inr [(''0xA'', 10)]
   \<and> snd (run_ledger ERC20 (token_chain topup_logs) (Some 100) 102)
       = Inr [(''0xA'', BigIntVal 5)]
   \<and> snd (main id example_args (token_chain topup_logs) (Some prior_snapshot))
       = Exit0 \<lparr>holders = [(''0xA'', Str ''0.000000000000000005'')],
                lastCheckedBlock = 102, deploymentBlock = Some 98, symbol = ''TKN''\<rparr>
   \<and> stored_balance id ERC20 (BigIntVal (10 + 5)) = Str ''0.000000000000000015''
   \<and> snd (main id refresh_args (token_chain topup_logs) (Some prior_snapshot))
       = Exit0 \<lparr>holders = [(''0xA'', Str ''0.000000000000000015'')],
                lastCheckedBlock = 102, deploymentBlock = Some 98, symbol = ''TKN''\<rparr>"
proof -
  have 1: "load_holders (holders prior_snapshot) [] = Inr [(''0xA'', 10)]"
    by code_simp
  have 2: "snd (run_ledger ERC20 (token_chain topup_logs) (Some 100) 102)
       = Inr [(''0xA'', BigIntVal 5)]"
    by code_simp
  have 3: "snd (main id example_args (token_chain topup_logs) (Some prior_snapshot))
       = Exit0 \<lparr>holders = [(''0xA'', Str ''0.000000000000000005'')],
                lastCheckedBlock = 102, deploymentBlock = Some 98, symbol = ''TKN''\<rparr>"
    by code_simp
  have 4: "stored_balance id ERC20 (BigIntVal (10 + 5)) = Str ''0.000000000000000015''"
    by code_simp
  have 5: "snd (main id refresh_args (token_chain topup_logs) (Some prior_snapshot))
       = Exit0 \<lparr>holders = [(''0xA'', Str ''0.000000000000000015'')],
                lastCheckedBlock = 102, deploymentBlock = Some 98, symbol = ''TKN''\<rparr>"
    by code_simp
  from 1 2 3 4 5 show ?thesis
    by (intro conjI)
qed



subsection \<open>Merging twice\<close>

text \<open>
  The comparator is total, so stable insertion gives a list in which every element may
  stand in front of its successor, and sorting such a list changes nothing.
\<close>

lemma successively_insert_sorted:
  assumes total: "\<And>x y. cmp x y \<le> 0 \<or> cmp y x \<le> 0"
    and "successively (\<lambda>x y. cmp x y \<le> 0) ys"
  shows "successively (\<lambda>x y. cmp x y \<le> 0) (insert_sorted cmp x ys)"
  using assms(2)
proof (induction ys)
  case Nil
  then show ?case by simp
next
  case (Cons y ys)
  show ?case
  proof (cases "cmp x y \<le> 0")
    case True
    with Cons.prems show ?thesis by simp
  next
    case False
    with total [of x y] have yx: "cmp y x \<le> 0" by simp
    from Cons.prems have tl: "successively (\<lambda>x y. cmp x y \<le> 0) ys"
      by (cases ys) simp_all
    have ih: "successively (\<lambda>x y. cmp x y \<le> 0) (insert_sorted cmp x ys)"
      by (rule Cons.IH [OF tl])
    show ?thesis
    proof (cases ys)
      case Nil
      with False yx show ?thesis by simp
    next
      case (Cons z zs)
      with False yx ih Cons.prems show ?thesis
        by (cases "cmp x z \<le> 0") simp_all
    qed
  qed
qed

lemma successively_js_sort:
  assumes "\<And>x y. cmp x y \<le> 0 \<or> cmp y x \<le> 0"
  shows "successively (\<lambda>x y. cmp x y \<le> 0) (js_sort cmp xs)"
  by (induction xs) (simp_all add: js_sort_def successively_insert_sorted [OF assms])

lemma js_sort_chain_id:
  "successively (\<lambda>x y. cmp x y \<le> 0) xs \<Longrightarrow> js_sort cmp xs = xs"
proof (induction xs)
  case Nil
  then show ?case by (simp add: js_sort_def)
next
  case (Cons x xs)
  from Cons.prems have tl: "successively (\<lambda>x y. cmp x y \<le> 0) xs"
    by (cases xs) simp_all
  have "js_sort cmp (x # xs) = insert_sorted cmp x (js_sort cmp xs)"
    by (simp add: js_sort_def)
  also have "\<dots> = insert_sorted cmp x xs"
    by (simp add: Cons.IH [OF tl])
  also have "\<dots> = x # xs"
    using Cons.prems by (cases xs) simp_all
  finally show ?case .
qed

lemma compare_holders_total:
  "compare_holders n x y \<le> 0 \<or> compare_holders n y x \<le> 0"
  by (auto simp: compare_holders_def split: jsnum.splits)

lemma sort_holders_idem: "sort_holders n (sort_holders n xs) = sort_holders n xs"
  unfolding sort_holders_def
  by (rule js_sort_chain_id) (rule successively_js_sort, rule compare_holders_total)

lemma merge_holders_fixed:
  assumes "\<And>e. e \<in> set hs \<Longrightarrow> merge_step n ct isC e S = S"
  shows "merge_holders n ct isC hs S = S"
  using assms by (induction hs) (simp_all add: merge_holders_def)

lemma merge_step_fixed:
  assumes "map_of S (fst e) =
      (if not_0n (snd e) \<and> \<not> isC (fst e) then Some (stored_balance n ct (snd e)) else None)"
  shows "merge_step n ct isC e S = S"
proof (cases "not_0n (snd e) \<and> \<not> isC (fst e)")
  case True
  with assms show ?thesis
    by (simp add: merge_step_def update_triv)
next
  case False
  with assms have "fst e \<notin> fst ` set S"
    by (simp add: map_of_eq_None_iff)
  with False show ?thesis
    by (auto simp: merge_step_def)
qed

text \<open>
  C9. Merge idempotence: merging the same fresh computation a second time into the holder
  list that the first merge and sort produced, and sorting again, gives that same list,
  entry for entry and in the same order. The prior holders and the fresh computation are
  objects, so their keys are distinct.
\<close>

theorem merge_idempotent:
  assumes "distinct (map fst fresh)" and "distinct (map fst existing)"
  shows "sort_holders nearest (merge_holders nearest ct isContract fresh
           (sort_holders nearest (merge_holders nearest ct isContract fresh existing)))
       = sort_holders nearest (merge_holders nearest ct isContract fresh existing)"
proof -
  let ?R = "merge_holders nearest ct isContract fresh existing"
  let ?S = "sort_holders nearest ?R"
  have dR: "distinct (map fst ?R)"
    using assms(2) by (rule distinct_merge_holders)
  have mS: "map_of ?S = map_of ?R"
    unfolding sort_holders_def using dR by (rule map_of_js_sort)
  have "merge_holders nearest ct isContract fresh ?S = ?S"
  proof (rule merge_holders_fixed)
    fix e assume "e \<in> set fresh"
    then have "map_of fresh (fst e) = Some (snd e)"
      using assms(1) by simp
    then have "map_of ?S (fst e) =
      (if not_0n (snd e) \<and> \<not> isContract (fst e)
       then Some (stored_balance nearest ct (snd e)) else None)"
      by (simp add: mS map_of_merge_holders [OF assms(1)])
    then show "merge_step nearest ct isContract e ?S = ?S"
      by (rule merge_step_fixed)
  qed
  then show ?thesis
    by (simp add: sort_holders_idem)
qed

theorem merge_idempotent_witness:
  "distinct (map fst [(''0xA'', BigIntVal 5), (''0xB'', BigIntVal 0), (''0xC'', BigIntVal 9)])
   \<and> distinct (map fst [(''0xB'', Str ''0.000000000000000004''),
                         (''0xD'', Str ''0.000000000000000007'')])
   \<and> sort_holders id (merge_holders id ERC20 (\<lambda>h. h = ''0xC'')
          [(''0xA'', BigIntVal 5), (''0xB'', BigIntVal 0), (''0xC'', BigIntVal 9)]
          (sort_holders id (merge_holders id ERC20 (\<lambda>h. h = ''0xC'')
             [(''0xA'', BigIntVal 5), (''0xB'', BigIntVal 0), (''0xC'', BigIntVal 9)]
             [(''0xB'', Str ''0.000000000000000004''),
              (''0xD'', Str ''0.000000000000000007'')])))
     = sort_holders id (merge_holders id ERC20 (\<lambda>h. h = ''0xC'')
          [(''0xA'', BigIntVal 5), (''0xB'', BigIntVal 0), (''0xC'', BigIntVal 9)]
          [(''0xB'', Str ''0.000000000000000004''),
           (''0xD'', Str ''0.000000000000000007'')])"
proof -
  have h1: "distinct (map fst
      [(''0xA'', BigIntVal 5), (''0xB'', BigIntVal 0), (''0xC'', BigIntVal 9)])"
    by simp
  have h2: "distinct (map fst [(''0xB'', Str ''0.000000000000000004''),
                               (''0xD'', Str ''0.000000000000000007'')])"
    by simp
  from h1 h2 merge_idempotent [OF h1 h2, of id ERC20 "\<lambda>h. h = ''0xC''"]
  show ?thesis
    by (intro conjI)
qed

section \<open>The order of the holder list\<close>

text \<open>Without a \<^verbatim>\<open>NaN\<close> the sort is the stable sort by descending parsed balance.\<close>

lemma insert_sorted_insort_key:
  assumes "parseFloat n (snd x) \<noteq> NaN" and "\<forall>y \<in> set ys. parseFloat n (snd y) \<noteq> NaN"
  shows "insert_sorted (compare_holders n) x ys
       = insort_key (\<lambda>e. - parsed_balance n e) x ys"
  using assms(2)
proof (induction ys)
  case Nil
  then show ?case by simp
next
  case (Cons y ys)
  from Cons.prems have y: "parseFloat n (snd y) \<noteq> NaN" by simp
  have "compare_holders n x y \<le> 0 \<longleftrightarrow> - parsed_balance n x \<le> - parsed_balance n y"
    using assms(1) y
    by (auto simp: compare_holders_def parsed_balance_def the_num_def split: jsnum.splits)
  with Cons show ?case by simp
qed

lemma js_sort_sort_key:
  assumes "\<forall>y \<in> set xs. parseFloat n (snd y) \<noteq> NaN"
  shows "js_sort (compare_holders n) xs = sort_key (\<lambda>e. - parsed_balance n e) xs"
  using assms
proof (induction xs)
  case Nil
  then show ?case by (simp add: js_sort_def)
next
  case (Cons x xs)
  then have ih: "js_sort (compare_holders n) xs = sort_key (\<lambda>e. - parsed_balance n e) xs"
    by simp
  have "js_sort (compare_holders n) (x # xs)
      = insert_sorted (compare_holders n) x (js_sort (compare_holders n) xs)"
    by (simp add: js_sort_def)
  also have "\<dots> = insort_key (\<lambda>e. - parsed_balance n e) x (js_sort (compare_holders n) xs)"
    using Cons.prems by (intro insert_sorted_insort_key) (simp_all add: set_js_sort)
  finally show ?case
    by (simp add: ih)
qed

lemma sort_holders_descending:
  assumes "\<forall>y \<in> set xs. parseFloat n (snd y) \<noteq> NaN"
  shows "sorted_wrt (\<lambda>x y. parsed_balance n y \<le> parsed_balance n x) (sort_holders n xs)"
proof -
  have "sorted (map (\<lambda>e. - parsed_balance n e) (sort_key (\<lambda>e. - parsed_balance n e) xs))"
    by (rule sorted_sort_key)
  then show ?thesis
    by (simp add: sort_holders_def js_sort_sort_key [OF assms] sorted_map)
qed

lemma sort_holders_stable:
  assumes "\<forall>y \<in> set xs. parseFloat n (snd y) \<noteq> NaN"
  shows "filter (\<lambda>e. parsed_balance n e = k) (sort_holders n xs)
       = filter (\<lambda>e. parsed_balance n e = k) xs"
proof -
  have "filter (\<lambda>e. - parsed_balance n e = - k) (sort_key (\<lambda>e. - parsed_balance n e) xs)
      = filter (\<lambda>e. - parsed_balance n e = - k) xs"
    by (rule sort_key_stable)
  then show ?thesis
    by (simp add: sort_holders_def js_sort_sort_key [OF assms])
qed

text \<open>Every balance in the merged object is a stored balance, so it parses to a number.\<close>

lemma merge_holders_values:
  assumes "\<forall>e \<in> set ex. \<exists>v. snd e = stored_balance n ct v"
  shows "\<forall>e \<in> set (merge_holders n ct isC hs ex). \<exists>v. snd e = stored_balance n ct v"
  using assms
proof (induction hs arbitrary: ex)
  case Nil
  then show ?case by (simp add: merge_holders_def)
next
  case (Cons h hs)
  have "\<forall>e \<in> set (merge_step n ct isC h ex). \<exists>v. snd e = stored_balance n ct v"
  proof (cases "not_0n (snd h) \<and> \<not> isC (fst h)")
    case True
    have sub: "set (AList.update (fst h) (stored_balance n ct (snd h)) ex)
        \<subseteq> insert (fst h, stored_balance n ct (snd h)) (set ex)"
      by (induction ex) auto
    show ?thesis
    proof
      fix e assume "e \<in> set (merge_step n ct isC h ex)"
      with True sub have "e = (fst h, stored_balance n ct (snd h)) \<or> e \<in> set ex"
        by (auto simp: merge_step_def)
      then show "\<exists>v. snd e = stored_balance n ct v"
        using Cons.prems by auto
    qed
  next
    case False
    with Cons.prems show ?thesis
      by (auto simp: merge_step_def AList.delete_eq)
  qed
  then show ?case
    by (simp add: merge_holders_Cons Cons.IH)
qed

lemma merged_values_parse:
  "\<forall>e \<in> set (merge_holders n ct isC hs (reformat_existing n ct ex)).
     parseFloat n (snd e) \<noteq> NaN"
proof -
  have "\<forall>e \<in> set (reformat_existing n ct ex). \<exists>v. snd e = stored_balance n ct v"
    using values_reformat_existing by blast
  then have "\<forall>e \<in> set (merge_holders n ct isC hs (reformat_existing n ct ex)).
      \<exists>v. snd e = stored_balance n ct v"
    by (rule merge_holders_values)
  then show ?thesis
    using parseFloat_stored by metis
qed

text \<open>
  C4. The persisted holder list is strictly descending by parsed numeric balance, stable on
  ties. As amended: the list is descending, not strictly. Every balance in it parses to a
  number; an entry never has a smaller parsed balance than a later entry, and entries may
  have equal parsed balances; the entries of one parsed balance stand in the order they had
  in the merged object before the sort.
\<close>

theorem holders_sorted_descending_stable:
  "list_all (\<lambda>e. parseFloat nearest (snd e) \<noteq> NaN)
     (snapshot_holders nearest ct isContract fresh existingHolders)
   \<and> sorted_wrt (\<lambda>x y. parsed_balance nearest y \<le> parsed_balance nearest x)
       (snapshot_holders nearest ct isContract fresh existingHolders)
   \<and> filter (\<lambda>e. parsed_balance nearest e = k)
       (snapshot_holders nearest ct isContract fresh existingHolders)
     = filter (\<lambda>e. parsed_balance nearest e = k)
         (merge_holders nearest ct isContract fresh
            (reformat_existing nearest ct existingHolders))"
proof -
  let ?M = "merge_holders nearest ct isContract fresh
              (reformat_existing nearest ct existingHolders)"
  have ok: "\<forall>e \<in> set ?M. parseFloat nearest (snd e) \<noteq> NaN"
    by (rule merged_values_parse)
  have "set (sort_holders nearest ?M) = set ?M"
    by (simp add: sort_holders_def set_js_sort)
  with ok have 1: "list_all (\<lambda>e. parseFloat nearest (snd e) \<noteq> NaN) (sort_holders nearest ?M)"
    by (simp add: list_all_iff)
  from 1 sort_holders_descending [OF ok] sort_holders_stable [OF ok, of k]
  show ?thesis
    by (simp add: snapshot_holders_def)
qed

text \<open>
  C4, as stated, fails when two holders have the same balance: a run over a
  collection in which \<^verbatim>\<open>0xA\<close> and \<^verbatim>\<open>0xB\<close> hold one token each persists the two entries
  with the parsed balance 1, and the first is not greater than the second.
\<close>

theorem strictly_descending_counterexample:
  "snd (main id example_args chain_two_mints None)
     = Exit0 \<lparr>holders = [(''0xA'', Num 1), (''0xB'', Num 1)], lastCheckedBlock = 3,
              deploymentBlock = Some 1, symbol = ''NFT''\<rparr>
   \<and> \<not> parsed_balance id (''0xB'', Num 1) < parsed_balance id (''0xA'', Num 1)"
proof -
  have 1: "snd (main id example_args chain_two_mints None)
     = Exit0 \<lparr>holders = [(''0xA'', Num 1), (''0xB'', Num 1)], lastCheckedBlock = 3,
              deploymentBlock = Some 1, symbol = ''NFT''\<rparr>"
    by code_simp
  have 2: "\<not> parsed_balance id (''0xB'', Num 1) < parsed_balance id (''0xA'', Num 1)"
    by code_simp
  from 1 2 show ?thesis
    by (rule conjI)
qed

section \<open>The blocks a run fetches\<close>

lemma toNumber_Some: "toNumber (Some x) = x"
  by (simp add: toNumber_def)

lemma windows_cover:
  "(\<Union>w \<in> set (block_windows i t). {toNumber (fst w) .. snd w}) = {toNumber i .. t}"
proof (induction i t rule: block_windows.induct)
  case (1 i toBlock)
  show ?case
  proof (cases "toNumber i \<le> toBlock")
    case True
    have "(\<Union>w \<in> set (block_windows i toBlock). {toNumber (fst w) .. snd w})
        = {toNumber i .. min (toNumber i + 1000 - 1) toBlock}
          \<union> (\<Union>w \<in> set (block_windows (Some (toNumber i + 1000)) toBlock).
               {toNumber (fst w) .. snd w})"
      using True by (subst block_windows.simps) simp
    also have "\<dots> = {toNumber i .. min (toNumber i + 1000 - 1) toBlock}
          \<union> {toNumber i + 1000 .. toBlock}"
      using 1 [OF True] by (simp add: toNumber_Some)
    also have "\<dots> = {toNumber i .. toBlock}"
      using True by auto
    finally show ?thesis .
  next
    case False
    then show ?thesis
      by (subst block_windows.simps) simp
  qed
qed

lemma fetched_blocks_queries: "fetched_blocks (queries name i t) = {toNumber i .. t}"
proof -
  have "fetched_blocks (queries name i t)
      = (\<Union>w \<in> set (block_windows i t). {toNumber (fst w) .. snd w})"
    by (auto simp: fetched_blocks_def queries_def query_blocks_def)
  then show ?thesis
    by (simp add: windows_cover)
qed

lemma fetched_blocks_append:
  "fetched_blocks (qs @ qs') = fetched_blocks qs \<union> fetched_blocks qs'"
  by (simp add: fetched_blocks_def)

lemma fetched_blocks_run_ledger:
  "fetched_blocks (fst (run_ledger ct c i t)) = {toNumber i .. t}"
  by (cases ct) (simp_all add: run_ledger_def fetched_blocks_queries fetched_blocks_append)

text \<open>The fresh holders of every ledger are an object without a Number zero.\<close>

lemma run_ledger_distinct:
  assumes "snd (run_ledger ct c i t) = Inr hs"
  shows "distinct (map fst hs)"
proof -
  have keys: "fst \<circ> (\<lambda>(h, b). (h, f b)) = fst"
    for f :: "int \<Rightarrow> ledger_value"
    by (auto simp: fun_eq_iff)
  show ?thesis
  proof (cases ct)
    case ERC20
    with assms show ?thesis
      by (auto simp: run_ledger_def keys distinct_getERC20Holders)
  next
    case ERC721
    with assms show ?thesis
      by (auto simp: run_ledger_def keys distinct_getERC721Holders)
  next
    case ERC1155
    with assms show ?thesis
      by (auto simp: run_ledger_def getERC1155Holders_def keys distinct_holders_of_balances
          split: sum.splits)
  qed
qed

lemma run_ledger_no_Number_zero:
  assumes "snd (run_ledger ct c i t) = Inr hs"
  shows "\<forall>(h, v) \<in> set hs. v \<noteq> NumberVal 0"
proof (cases ct)
  case ERC20
  with assms show ?thesis
    by (auto simp: run_ledger_def)
next
  case ERC721
  with assms show ?thesis
    using getERC721Holders_positive by (fastforce simp: run_ledger_def)
next
  case ERC1155
  with assms show ?thesis
    by (auto simp: run_ledger_def split: sum.splits)
qed

section \<open>The run\<close>

text \<open>Whatever the report of the top holders does, the snapshot has been written.\<close>

lemma written_write_and_report: "written_snapshot (write_and_report written) = Some written"
  by (simp add: written_snapshot_def write_and_report_def split: sum.splits)

lemma main_fetch:
  assumes "tokenInfo c = Some tk"
    and "(case file of None \<Rightarrow> Inr [] | Some data \<Rightarrow> load_holders (holders data) []) = Inr ex"
    and "detectContractType c = Some ct"
  shows "fst (main nearest a c file)
       = fst (run_ledger ct c (fst (resolve_blocks a c file)) (blockNumber c))"
  using assms
  by (simp add: main_def Let_def split: prod.splits sum.splits)

lemma main_written:
  assumes "tokenInfo c = Some tk"
    and "(case file of None \<Rightarrow> Inr [] | Some data \<Rightarrow> load_holders (holders data) []) = Inr ex"
    and "detectContractType c = Some ct"
    and "snd (run_ledger ct c (fst (resolve_blocks a c file)) (blockNumber c)) = Inr hs"
  shows "snd (main nearest a c file)
       = write_and_report \<lparr>holders = snapshot_holders nearest ct (hasCode c) hs ex,
                           lastCheckedBlock = blockNumber c,
                           deploymentBlock = snd (resolve_blocks a c file),
                           symbol = snd tk\<rparr>"
proof -
  obtain qs where "run_ledger ct c (fst (resolve_blocks a c file)) (blockNumber c) = (qs, Inr hs)"
    using assms(4) by (cases "run_ledger ct c (fst (resolve_blocks a c file)) (blockNumber c)") auto
  then show ?thesis
    using assms(1-3) by (simp add: main_def Let_def)
qed

text \<open>
  C2. Incremental resume: with a cached snapshot whose \<^verbatim>\<open>lastCheckedBlock\<close> is 100, a
  verified deployment block and the refresh flag disabled, a run fetches events only for
  blocks greater than 100. As amended: the run fetches events for the blocks from
  \<^verbatim>\<open>lastCheckedBlock\<close> to the current block, both included, so for the blocks from 100
  on; block 100 itself is fetched again whenever the chain has reached it. The run gets as
  far as fetching when the token is found, the snapshot loads and the contract type is
  detected.
\<close>

theorem resume_fetches_from_checkpoint:
  assumes "tokenInfo c = Some tk"
    and "load_holders (holders data) [] = Inr ex"
    and "detectContractType c = Some ct"
    and "deploymentBlock data = Some db" and "db \<noteq> 0"
    and "verifyDeploymentBlock a c db"
    and "\<not> refreshData a"
  shows "fetched_blocks (fst (main nearest a c (Some data)))
       = {lastCheckedBlock data .. blockNumber c}"
proof -
  have "fst (resolve_blocks a c (Some data)) = Some (lastCheckedBlock data)"
    using assms(4-7) by (simp add: resolve_blocks_def)
  moreover have "fst (main nearest a c (Some data))
      = fst (run_ledger ct c (fst (resolve_blocks a c (Some data))) (blockNumber c))"
    using assms(1-3) by (intro main_fetch) simp_all
  ultimately show ?thesis
    by (simp add: fetched_blocks_run_ledger toNumber_Some)
qed

theorem resume_fetches_from_checkpoint_witness:
  "tokenInfo (token_chain topup_logs) = Some (''Token'', ''TKN'')
   \<and> load_holders (holders prior_snapshot) [] = Inr [(''0xA'', 10)]
   \<and> detectContractType (token_chain topup_logs) = Some ERC20
   \<and> deploymentBlock prior_snapshot = Some 98 \<and> (98 :: int) \<noteq> 0
   \<and> verifyDeploymentBlock example_args (token_chain topup_logs) 98
   \<and> \<not> refreshData example_args
   \<and> fetched_blocks (fst (main id example_args (token_chain topup_logs) (Some prior_snapshot)))
       = {lastCheckedBlock prior_snapshot .. blockNumber (token_chain topup_logs)}"
proof -
  have h1: "tokenInfo (token_chain topup_logs) = Some (''Token'', ''TKN'')"
    by (simp add: token_chain_def)
  have h2: "load_holders (holders prior_snapshot) [] = Inr [(''0xA'', 10)]"
    by code_simp
  have h3: "detectContractType (token_chain topup_logs) = Some ERC20"
    by (simp add: token_chain_def detectContractType_def)
  have h4: "deploymentBlock prior_snapshot = Some 98"
    by (simp add: prior_snapshot_def)
  have h5: "(98 :: int) \<noteq> 0"
    by simp
  have h6: "verifyDeploymentBlock example_args (token_chain topup_logs) 98"
    by (simp add: verifyDeploymentBlock_def checkBlockForDeployment_def token_chain_def
        example_args_def)
  have h7: "\<not> refreshData example_args"
    by (simp add: example_args_def)
  from h1 h2 h3 h4 h5 h6 h7
    resume_fetches_from_checkpoint [OF h1 h2 h3 h4 h5 h6 h7, of id]
  show ?thesis
    by (intro conjI)
qed

text \<open>
  C2, as stated, fails on the example run: the snapshot was taken at block 100, the chain is
  at block 102, and the one query of the resumed run starts at block 100, a block that is
  not greater than 100.
\<close>

theorem resume_refetches_checkpoint_counterexample:
  "lastCheckedBlock prior_snapshot = 100
   \<and> \<not> refreshData example_args
   \<and> verifyDeploymentBlock example_args (token_chain topup_logs) 98
   \<and> fst (main id example_args (token_chain topup_logs) (Some prior_snapshot))
       = [Query ''Transfer'' (Some 100) 102]
   \<and> 100 \<in> fetched_blocks [Query ''Transfer'' (Some 100) 102]"
proof -
  have 1: "lastCheckedBlock prior_snapshot = 100"
    by (simp add: prior_snapshot_def)
  have 2: "\<not> refreshData example_args"
    by (simp add: example_args_def)
  have 3: "verifyDeploymentBlock example_args (token_chain topup_logs) 98"
    by (simp add: verifyDeploymentBlock_def checkBlockForDeployment_def token_chain_def
        example_args_def)
  have 4: "fst (main id example_args (token_chain topup_logs) (Some prior_snapshot))
       = [Query ''Transfer'' (Some 100) 102]"
    by code_simp
  have 5: "100 \<in> fetched_blocks [Query ''Transfer'' (Some 100) 102]"
    by (simp add: fetched_blocks_def query_blocks_def toNumber_def)
  from 1 2 3 4 5 show ?thesis
    by (intro conjI)
qed

text \<open>
  C8. A deployment-block scan that finds nothing, with no prior snapshot that supplies a
  verified deployment block, is fatal: the run aborts without fetching events and without
  writing a snapshot. As amended: the scan's failure is not fatal. When the scan finds no
  deployment block and there is no prior snapshot, or the deployment block of the prior
  snapshot fails its verification, the run goes on once the token is found, the prior
  holders load and the contract type is detected: it fetches the events of the blocks up to
  the current block, starting at block 0 without a prior snapshot and at the starting block
  given on the command line with one, and, when the ledger does not throw, it writes the
  snapshot, with a \<^verbatim>\<open>null\<close> \<^verbatim>\<open>deploymentBlock\<close>. After the snapshot is written the run
  ends as every run that writes one does, with the report of the top holders.
\<close>

theorem not_found_continues:
  assumes "tokenInfo c = Some tk"
    and "detectContractType c = Some ct"
    and "getDeploymentBlock a c = None"
    and "file = None \<or> (\<exists>data db. file = Some data \<and> deploymentBlock data = Some db
           \<and> db \<noteq> 0 \<and> \<not> verifyDeploymentBlock a c db)"
    and "(case file of None \<Rightarrow> Inr [] | Some data \<Rightarrow> load_holders (holders data) []) = Inr ex"
    and "snd (run_ledger ct c (case file of None \<Rightarrow> None | Some data \<Rightarrow> Some (startingBlock a))
           (blockNumber c)) = Inr hs"
  shows "main nearest a c file
       = (fst (run_ledger ct c
                 (case file of None \<Rightarrow> None | Some data \<Rightarrow> Some (startingBlock a))
                 (blockNumber c)),
          write_and_report
            \<lparr>holders = snapshot_holders nearest ct (hasCode c) hs ex,
             lastCheckedBlock = blockNumber c,
             deploymentBlock = None,
             symbol = snd tk\<rparr>)
     \<and> written_snapshot (snd (main nearest a c file))
       = Some \<lparr>holders = snapshot_holders nearest ct (hasCode c) hs ex,
               lastCheckedBlock = blockNumber c,
               deploymentBlock = None,
               symbol = snd tk\<rparr>
     \<and> fetched_blocks (fst (main nearest a c file))
       = {(case file of None \<Rightarrow> 0 | Some data \<Rightarrow> startingBlock a) .. blockNumber c}"
proof -
  let ?start = "case file of None \<Rightarrow> None | Some data \<Rightarrow> Some (startingBlock a)"
  have r: "resolve_blocks a c file = (?start, None)"
    using assms(3,4) by (auto simp: resolve_blocks_def)
  have f: "fst (main nearest a c file) = fst (run_ledger ct c ?start (blockNumber c))"
    using main_fetch [OF assms(1) assms(5) assms(2), of nearest a] by (simp add: r)
  have "snd (run_ledger ct c (fst (resolve_blocks a c file)) (blockNumber c)) = Inr hs"
    using assms(6) by (simp add: r)
  from main_written [OF assms(1) assms(5) assms(2) this, of nearest]
  have s: "snd (main nearest a c file)
      = write_and_report
          \<lparr>holders = snapshot_holders nearest ct (hasCode c) hs ex,
           lastCheckedBlock = blockNumber c,
           deploymentBlock = None,
           symbol = snd tk\<rparr>"
    by (simp add: r)
  have t: "toNumber ?start = (case file of None \<Rightarrow> 0 | Some data \<Rightarrow> startingBlock a)"
    by (simp add: toNumber_def split: option.splits)
  show ?thesis
    using f s by (simp add: prod_eq_iff fetched_blocks_run_ledger t written_write_and_report)
qed

theorem not_found_continues_witness:
  "tokenInfo chain_no_deployment = Some (''Token'', ''TKN'')
   \<and> detectContractType chain_no_deployment = Some ERC20
   \<and> getDeploymentBlock example_args chain_no_deployment = None
   \<and> snd (run_ledger ERC20 chain_no_deployment None (blockNumber chain_no_deployment))
       = Inr [(''0xA'', BigIntVal 7)]
   \<and> main id example_args chain_no_deployment None
       = (fst (run_ledger ERC20 chain_no_deployment None (blockNumber chain_no_deployment)),
          write_and_report
            \<lparr>holders = snapshot_holders id ERC20 (hasCode chain_no_deployment)
                         [(''0xA'', BigIntVal 7)] [],
             lastCheckedBlock = blockNumber chain_no_deployment,
             deploymentBlock = None,
             symbol = ''TKN''\<rparr>)
   \<and> written_snapshot (snd (main id example_args chain_no_deployment None))
       = Some \<lparr>holders = snapshot_holders id ERC20 (hasCode chain_no_deployment)
                           [(''0xA'', BigIntVal 7)] [],
               lastCheckedBlock = blockNumber chain_no_deployment,
               deploymentBlock = None,
               symbol = ''TKN''\<rparr>
   \<and> fetched_blocks (fst (main id example_args chain_no_deployment None))
       = {0 .. blockNumber chain_no_deployment}"
proof -
  have h1: "tokenInfo chain_no_deployment = Some (''Token'', ''TKN'')"
    by (simp add: chain_no_deployment_def)
  have h2: "detectContractType chain_no_deployment = Some ERC20"
    by (simp add: chain_no_deployment_def detectContractType_def)
  have h3: "getDeploymentBlock example_args chain_no_deployment = None"
    by code_simp
  have h4: "snd (run_ledger ERC20 chain_no_deployment None (blockNumber chain_no_deployment))
       = Inr [(''0xA'', BigIntVal 7)]"
    by code_simp
  note th = not_found_continues
    [of chain_no_deployment _ ERC20 example_args None "[]" _ id, OF h1 h2 h3, simplified,
     OF h4]
  from h1 h2 h3 h4 th [THEN conjunct1] th [THEN conjunct2, THEN conjunct1]
    th [THEN conjunct2, THEN conjunct2]
  show ?thesis
    by (intro conjI)
qed

text \<open>
  C8, as stated, fails on the example run: no block of the chain creates the contract and
  there is no prior snapshot, yet the run queries the blocks 0 to 3 and writes a snapshot.
\<close>

theorem not_found_fatal_counterexample:
  "getDeploymentBlock example_args chain_no_deployment = None
   \<and> main id example_args chain_no_deployment None
       = ([Query ''Transfer'' None 3],
          Exit0 \<lparr>holders = [(''0xA'', Str ''0.000000000000000007'')], lastCheckedBlock = 3,
                 deploymentBlock = None, symbol = ''TKN''\<rparr>)"
proof -
  have 1: "getDeploymentBlock example_args chain_no_deployment = None"
    by code_simp
  have 2: "main id example_args chain_no_deployment None
       = ([Query ''Transfer'' None 3],
          Exit0 \<lparr>holders = [(''0xA'', Str ''0.000000000000000007'')], lastCheckedBlock = 3,
                 deploymentBlock = None, symbol = ''TKN''\<rparr>)"
    by code_simp
  from 1 2 show ?thesis
    by (rule conjI)
qed

end
